theory Spec2Isabelle
  imports Complex_Main "HOL-Library.AList"
begin

section \<open>Values of the migration script\<close>

text \<open>
  The script \<^verbatim>\<open>migrate.py\<close> moves entries between two Strapi instances. Every value
  it handles comes out of \<^verbatim>\<open>response.json()\<close>, so the data model is the JSON tree as
  Python sees it. A \<^verbatim>\<open>dict\<close> keeps its insertion order and the order of the fields
  decides the order of the HTTP requests, so a dictionary is an association list; its
  keys are distinct (stated as a hypothesis wherever a result needs it).
  Strings are byte strings here; floats are reals (JSON has no NaN and no infinity).
\<close>

datatype json =
    JNull
  | JBool bool
  | JInt int
  | JFloat real
  | JStr string
  | JList "json list"
  | JDict "(string \<times> json) list"

type_synonym entry = "(string \<times> json) list"

text \<open>The exceptions the script can end with. \<^verbatim>\<open>ValueError\<close> is raised by the
  relationship lookup only and carries the old identifier of its message (the spec
  calls it NotFoundError). \<^verbatim>\<open>RequestException\<close> stands for every failure of
  \<^verbatim>\<open>requests.get\<close>/\<^verbatim>\<open>requests.post\<close> other than a bad status.\<close>

datatype error =
    HTTPError int
  | RequestException
  | JSONDecodeError
  | KeyError
  | TypeError
  | IndexError
  | ValueError json
  | OSError

subsection \<open>Python's primitives on these values\<close>

text \<open>Truthiness: \<^verbatim>\<open>if data:\<close>, \<^verbatim>\<open>value.get("url")\<close> in a condition.\<close>

fun truthy :: "json \<Rightarrow> bool" where
  "truthy JNull = False"
| "truthy (JBool b) = b"
| "truthy (JInt i) = (i \<noteq> 0)"
| "truthy (JFloat x) = (x \<noteq> 0)"
| "truthy (JStr s) = (s \<noteq> [])"
| "truthy (JList xs) = (xs \<noteq> [])"
| "truthy (JDict kvs) = (kvs \<noteq> [])"

text \<open>\<^verbatim>\<open>isinstance(v, dict)\<close> and \<^verbatim>\<open>isinstance(v, list)\<close>.\<close>

fun is_dict :: "json \<Rightarrow> bool" where
  "is_dict (JDict d) = True"
| "is_dict _ = False"

fun is_list :: "json \<Rightarrow> bool" where
  "is_list (JList xs) = True"
| "is_list _ = False"

text \<open>\<^verbatim>\<open>d.get(k)\<close>: the value, or None.\<close>

definition dict_get :: "entry \<Rightarrow> string \<Rightarrow> json" where
  "dict_get d k = (case map_of d k of None \<Rightarrow> JNull | Some v \<Rightarrow> v)"

text \<open>\<^verbatim>\<open>v[k]\<close> for a string key: KeyError on a dict without the key, TypeError on
  everything that is not a dict (a list or a string wants an integer index).\<close>

fun getitem_key :: "json \<Rightarrow> string \<Rightarrow> error + json" where
  "getitem_key (JDict d) k = (case map_of d k of None \<Rightarrow> Inl KeyError | Some v \<Rightarrow> Inr v)"
| "getitem_key _ k = Inl TypeError"

text \<open>\<^verbatim>\<open>v[0]\<close>: a dict from JSON has string keys only, so the key 0 is missing.\<close>

fun getitem_0 :: "json \<Rightarrow> error + json" where
  "getitem_0 (JList xs) = (case xs of [] \<Rightarrow> Inl IndexError | x # _ \<Rightarrow> Inr x)"
| "getitem_0 (JStr s) = (case s of [] \<Rightarrow> Inl IndexError | c # _ \<Rightarrow> Inr (JStr [c]))"
| "getitem_0 (JDict d) = Inl KeyError"
| "getitem_0 _ = Inl TypeError"

text \<open>\<^verbatim>\<open>k in v\<close> for a string \<open>k\<close>: a key of a dict, an element of a list, a substring
  of a string; TypeError on None, a bool or a number.\<close>

primrec is_substring :: "string \<Rightarrow> string \<Rightarrow> bool" where
  "is_substring p [] = (p = [])"
| "is_substring p (c # cs) = (take (length p) (c # cs) = p \<or> is_substring p cs)"

fun contains :: "string \<Rightarrow> json \<Rightarrow> error + bool" where
  "contains k (JDict d) = Inr (k \<in> fst ` set d)"
| "contains k (JList xs) = Inr (JStr k \<in> set xs)"
| "contains k (JStr s) = Inr (is_substring k s)"
| "contains k _ = Inl TypeError"

text \<open>\<^verbatim>\<open>all(k in v for v in vs)\<close>: left to right, stopping at the first False, and
  raising where \<^verbatim>\<open>k in v\<close> raises.\<close>

primrec all_contain :: "string \<Rightarrow> json list \<Rightarrow> error + bool" where
  "all_contain k [] = Inr True"
| "all_contain k (v # vs) =
     (case contains k v of
        Inl e \<Rightarrow> Inl e
      | Inr b \<Rightarrow> if b then all_contain k vs else Inr False)"

text \<open>\<^verbatim>\<open>entries.extend(data)\<close> iterates \<open>data\<close>: the elements of a list, the keys of a
  dict, the characters of a string.\<close>

fun py_iter :: "json \<Rightarrow> error + json list" where
  "py_iter (JList xs) = Inr xs"
| "py_iter (JDict d) = Inr (map (\<lambda>kv. JStr (fst kv)) d)"
| "py_iter (JStr s) = Inr (map (\<lambda>c. JStr [c]) s)"
| "py_iter _ = Inl TypeError"

text \<open>\<^verbatim>\<open>s.split(c)\<close> for a one-character separator: never an empty list, and
  \<^verbatim>\<open>"".split(",")\<close> is \<^verbatim>\<open>[""]\<close>.\<close>

fun split_on :: "char \<Rightarrow> string \<Rightarrow> string list" where
  "split_on c [] = [[]]"
| "split_on c (x # xs) =
     (if x = c then [] # split_on c xs
      else (case split_on c xs of
              [] \<Rightarrow> [[x]]
            | s # ss \<Rightarrow> (x # s) # ss))"

section \<open>Configuration\<close>

text \<open>The module-level constants read from the environment when the script starts.\<close>

record config =
  STRAPI_3_BASE_URL :: string
  STRAPI_4_BASE_URL :: string
  STRAPI_4_API_KEY :: string
  STRAPI_3_EMAIL :: string
  STRAPI_3_PASSWORD :: string
  STRAPI_3_MODEL :: string
  STRAPI_4_MODEL :: string
  RELATIONSHIP_FIELDS :: "string list"
  BATCH_SIZE :: int

text \<open>\<^verbatim>\<open>os.getenv("RELATIONSHIP_FIELDS", "").split(",")\<close>: the argument is the variable's
  value, None when it is not set.\<close>

definition relationship_fields_of :: "string option \<Rightarrow> string list" where
  "relationship_fields_of var =
     split_on CHR '','' (case var of None \<Rightarrow> [] | Some s \<Rightarrow> s)"

section \<open>The outside world\<close>

text \<open>
  The requests the script sends, by what varies in them (base URLs and the API key are
  constants of a run):
  \<^item> \<open>Login email password\<close>: POST \<^verbatim>\<open>{STRAPI_3_BASE_URL}/admin/login\<close>;
  \<^item> \<open>Download media_url\<close>: GET \<^verbatim>\<open>media_url\<close>;
  \<^item> \<open>Upload file_name bytes\<close>: POST \<^verbatim>\<open>{STRAPI_4_BASE_URL}/api/upload\<close> with the file;
  \<^item> \<open>Lookup model_name old_id\<close>: GET \<^verbatim>\<open>{STRAPI_4_BASE_URL}/api/{model_name}s\<close> filtered
    on \<^verbatim>\<open>old_id\<close>;
  \<^item> \<open>Page model_name token limit start\<close>: GET \<^verbatim>\<open>{STRAPI_3_BASE_URL}/{model_name}\<close> with
    \<^verbatim>\<open>_limit\<close> and \<^verbatim>\<open>_start\<close>;
  \<^item> \<open>Create model_name body\<close>: POST \<^verbatim>\<open>{STRAPI_4_BASE_URL}/api/{model_name}\<close> with the
    JSON body.
\<close>

datatype request =
    Login string string
  | Download string
  | Upload string string
  | Lookup string json
  | Page string json int int
  | Create string json

record response =
  status_code :: int
  content :: string
  json_body :: "json option"

text \<open>What the script prints, line by line, by what varies in the line.\<close>

datatype event =
    Authenticating
  | Fetching_entries string
  | Fetching_page int
  | Fetched nat
  | Creating_entries
  | Failed_to_create entry
  | Response_text string
  | Successfully_migrated entry
  | Migration_complete

text \<open>
  What the script does not decide. The two servers answer a request as a function of
  the request and of every request sent before it (\<open>None\<close>: the call raises instead of
  returning a response). \<open>urljoin\<close> is \<^verbatim>\<open>urllib.parse.urljoin\<close> on strings, and
  \<open>can_open_wb\<close> says whether \<^verbatim>\<open>open(name, "wb")\<close> succeeds in the working directory.
\<close>

record env =
  server :: "request list \<Rightarrow> request \<Rightarrow> response option"
  urljoin :: "string \<Rightarrow> string \<Rightarrow> string"
  can_open_wb :: "string \<Rightarrow> bool"

text \<open>The state a run changes: the requests sent so far (oldest first), the files of
  the working directory, and the lines printed.\<close>

record world =
  requests :: "request list"
  files :: "(string \<times> string) list"
  stdout :: "event list"

text \<open>A statement either returns a value or raises; the world it leaves is kept in
  both cases.\<close>

type_synonym 'a io = "world \<Rightarrow> (error + 'a) \<times> world"

definition ret :: "'a \<Rightarrow> 'a io" where
  "ret x w = (Inr x, w)"

definition raise :: "error \<Rightarrow> 'a io" where
  "raise e w = (Inl e, w)"

definition lift :: "error + 'a \<Rightarrow> 'a io" where
  "lift r w = (r, w)"

definition bind :: "'a io \<Rightarrow> ('a \<Rightarrow> 'b io) \<Rightarrow> 'b io" where
  "bind m f w = (case m w of (Inl e, w') \<Rightarrow> (Inl e, w') | (Inr x, w') \<Rightarrow> f x w')"

text \<open>A comprehension or a loop that collects one result per element, in order.\<close>

primrec map_io :: "('a \<Rightarrow> 'b io) \<Rightarrow> 'a list \<Rightarrow> 'b list io" where
  "map_io f [] = ret []"
| "map_io f (x # xs) = bind (f x) (\<lambda>y. bind (map_io f xs) (\<lambda>ys. ret (y # ys)))"

definition emit :: "event \<Rightarrow> unit io" where
  "emit ev w = (Inr (), w\<lparr>stdout := stdout w @ [ev]\<rparr>)"

definition send :: "env \<Rightarrow> request \<Rightarrow> response io" where
  "send env req w =
     (case server env (requests w) req of
        None \<Rightarrow> (Inl RequestException, w\<lparr>requests := requests w @ [req]\<rparr>)
      | Some r \<Rightarrow> (Inr r, w\<lparr>requests := requests w @ [req]\<rparr>))"

text \<open>\<^verbatim>\<open>response.raise_for_status()\<close> raises on a 4xx or 5xx status.\<close>

definition raise_for_status :: "response \<Rightarrow> unit io" where
  "raise_for_status r =
     (if 400 \<le> status_code r \<and> status_code r < 600
      then raise (HTTPError (status_code r)) else ret ())"

definition response_json :: "response \<Rightarrow> json io" where
  "response_json r = (case json_body r of None \<Rightarrow> raise JSONDecodeError | Some j \<Rightarrow> ret j)"

text \<open>The local files: writing a whole file, reading it back, \<^verbatim>\<open>os.remove\<close>.\<close>

definition write_file :: "env \<Rightarrow> string \<Rightarrow> string \<Rightarrow> unit io" where
  "write_file env name bytes w =
     (if can_open_wb env name
      then (Inr (), w\<lparr>files := AList.update name bytes (files w)\<rparr>)
      else (Inl OSError, w))"

definition read_file :: "string \<Rightarrow> string io" where
  "read_file name w =
     (case map_of (files w) name of None \<Rightarrow> (Inl OSError, w) | Some bytes \<Rightarrow> (Inr bytes, w))"

definition remove_file :: "string \<Rightarrow> unit io" where
  "remove_file name w =
     (if name \<in> fst ` set (files w)
      then (Inr (), w\<lparr>files := AList.delete name (files w)\<rparr>)
      else (Inl OSError, w))"

section \<open>The script\<close>

subsection \<open>Authentication\<close>

text \<open>\<^verbatim>\<open>get_strapi_3_token\<close>: log in, then \<^verbatim>\<open>response.json()["data"]["token"]\<close>.\<close>

definition get_strapi_3_token :: "config \<Rightarrow> env \<Rightarrow> json io" where
  "get_strapi_3_token cfg env =
     bind (send env (Login (STRAPI_3_EMAIL cfg) (STRAPI_3_PASSWORD cfg))) (\<lambda>r.
     bind (raise_for_status r) (\<lambda>_.
     bind (response_json r) (\<lambda>j.
     bind (lift (getitem_key j ''data'')) (\<lambda>d.
     lift (getitem_key d ''token'')))))"

subsection \<open>Media Transfer\<close>

text \<open>\<^verbatim>\<open>download_media\<close>: GET the URL, check the status, write the body to a file named
  by the last segment of the URL, return that name.\<close>

definition download_media :: "env \<Rightarrow> string \<Rightarrow> string io" where
  "download_media env media_url =
     bind (send env (Download media_url)) (\<lambda>r.
     bind (raise_for_status r) (\<lambda>_.
     bind (write_file env (last (split_on CHR ''/'' media_url)) (content r)) (\<lambda>_.
     ret (last (split_on CHR ''/'' media_url)))))"

text \<open>\<^verbatim>\<open>upload_media_to_strapi_4\<close>: POST the file, check the status, remove the file
  (only when the status was good), return \<^verbatim>\<open>response.json()[0]\<close>.\<close>

definition upload_media_to_strapi_4 :: "env \<Rightarrow> string \<Rightarrow> json io" where
  "upload_media_to_strapi_4 env file_path =
     bind (read_file file_path) (\<lambda>bytes.
     bind (send env (Upload file_path bytes)) (\<lambda>r.
     bind (raise_for_status r) (\<lambda>_.
     bind (remove_file file_path) (\<lambda>_.
     bind (response_json r) (\<lambda>j.
     lift (getitem_0 j))))))"

text \<open>\<^verbatim>\<open>urljoin(STRAPI_3_BASE_URL, u)\<close> for a truthy \<open>u\<close>. A \<open>u\<close> that is not a string
  is refused: by \<^verbatim>\<open>urljoin\<close> itself (TypeError) when the base is not empty, and by
  \<^verbatim>\<open>requests.get\<close>, which gets \<open>u\<close> back as the URL, when it is.\<close>

definition join_url :: "config \<Rightarrow> env \<Rightarrow> json \<Rightarrow> string io" where
  "join_url cfg env u =
     (case u of
        JStr s \<Rightarrow> ret (urljoin env (STRAPI_3_BASE_URL cfg) s)
      | _ \<Rightarrow> raise (if STRAPI_3_BASE_URL cfg = [] then RequestException else TypeError))"

text \<open>The four lines both branches of \<^verbatim>\<open>handle_media_fields\<close> run for one media
  mapping, from its \<^verbatim>\<open>url\<close> to \<^verbatim>\<open>uploaded_media["id"]\<close>: the spec's Media Transfer.\<close>

definition media_transfer :: "config \<Rightarrow> env \<Rightarrow> json \<Rightarrow> json io" where
  "media_transfer cfg env u =
     bind (join_url cfg env u) (\<lambda>media_url.
     bind (download_media env media_url) (\<lambda>file_path.
     bind (upload_media_to_strapi_4 env file_path) (\<lambda>uploaded_media.
     lift (getitem_key uploaded_media ''id''))))"

subsection \<open>Rewriting the fields of an entry in place\<close>

text \<open>
  The three passes share one shape:
  \<^verbatim>\<open>for field, value in entry.items(): ... entry[field] = new\<close>.
  The items are those of the entry the pass starts with (a pass assigns to the key it is
  visiting only, so the live view shows the same values), and \<open>entry\<close> is the dictionary
  as assigned to so far. The body returns the new value, or \<open>None\<close> when it assigns
  nothing.
\<close>

definition assign :: "string \<Rightarrow> json option \<Rightarrow> entry \<Rightarrow> entry" where
  "assign field new entry = (case new of None \<Rightarrow> entry | Some v \<Rightarrow> AList.update field v entry)"

primrec for_items :: "(string \<Rightarrow> json \<Rightarrow> json option io) \<Rightarrow> entry \<Rightarrow> entry \<Rightarrow> entry io" where
  "for_items body [] entry = ret entry"
| "for_items body (item # items) entry =
     bind (body (fst item) (snd item)) (\<lambda>new.
     for_items body items (assign (fst item) new entry))"

subsection \<open>The media pass\<close>

text \<open>\<^verbatim>\<open>isinstance(v, dict) and v.get("url")\<close>, and the \<^verbatim>\<open>url\<close> of such a mapping.\<close>

definition is_media :: "json \<Rightarrow> bool" where
  "is_media v = (case v of JDict d \<Rightarrow> truthy (dict_get d ''url'') | _ \<Rightarrow> False)"

definition url_of :: "json \<Rightarrow> json" where
  "url_of v = (case v of JDict d \<Rightarrow> dict_get d ''url'' | _ \<Rightarrow> JNull)"

definition media_field :: "config \<Rightarrow> env \<Rightarrow> json \<Rightarrow> json option io" where
  "media_field cfg env v =
     (if is_media v then
        bind (media_transfer cfg env (url_of v)) (\<lambda>media_id. ret (Some media_id))
      else (case v of
              JList media_items \<Rightarrow>
                if list_all is_media media_items then
                  bind (map_io (\<lambda>media_item. media_transfer cfg env (url_of media_item)) media_items)
                    (\<lambda>media_ids. ret (Some (JList media_ids)))
                else ret None
            | _ \<Rightarrow> ret None))"

definition handle_media_fields :: "config \<Rightarrow> env \<Rightarrow> entry \<Rightarrow> entry io" where
  "handle_media_fields cfg env entry = for_items (\<lambda>field. media_field cfg env) entry entry"

subsection \<open>The Relationship Resolver and the relationship pass\<close>

definition fetch_related_id_in_strapi_4 :: "env \<Rightarrow> string \<Rightarrow> json \<Rightarrow> json io" where
  "fetch_related_id_in_strapi_4 env model_name old_id =
     bind (send env (Lookup model_name old_id)) (\<lambda>r.
     bind (raise_for_status r) (\<lambda>_.
     bind (response_json r) (\<lambda>j.
     bind (lift (getitem_key j ''data'')) (\<lambda>matches.
     if truthy matches then
       bind (lift (getitem_0 matches)) (\<lambda>first. lift (getitem_key first ''id''))
     else raise (ValueError old_id)))))"

text \<open>\<^verbatim>\<open>{"connect": [{"id": rid} for rid in related_ids]}\<close>.\<close>

definition connect :: "json list \<Rightarrow> json" where
  "connect related_ids = JDict [(''connect'', JList (map (\<lambda>rid. JDict [(''id'', rid)]) related_ids))]"

definition relationship_field :: "config \<Rightarrow> env \<Rightarrow> string \<Rightarrow> json \<Rightarrow> json option io" where
  "relationship_field cfg env field v =
     (if field \<notin> set (RELATIONSHIP_FIELDS cfg) then ret None
      else (case v of
              JDict d \<Rightarrow>
                if ''id'' \<in> fst ` set d then
                  bind (fetch_related_id_in_strapi_4 env field (dict_get d ''id''))
                    (\<lambda>related_id. ret (Some (connect [related_id])))
                else ret None
            | JList vs \<Rightarrow>
                bind (lift (all_contain ''id'' vs)) (\<lambda>all_ids.
                if all_ids then
                  bind (map_io (\<lambda>x. bind (lift (getitem_key x ''id''))
                                  (fetch_related_id_in_strapi_4 env field)) vs)
                    (\<lambda>related_ids. ret (Some (connect related_ids)))
                else ret None)
            | _ \<Rightarrow> ret None))"

text \<open>The spec's Relationship Reference, a mapping containing \<^verbatim>\<open>id\<close>, and its \<^verbatim>\<open>id\<close>:
  the words of the claims about the relationship pass.\<close>

definition is_reference :: "json \<Rightarrow> bool" where
  "is_reference v = (case v of JDict d \<Rightarrow> ''id'' \<in> fst ` set d | _ \<Rightarrow> False)"

definition id_of :: "json \<Rightarrow> json" where
  "id_of v = (case v of JDict d \<Rightarrow> dict_get d ''id'' | _ \<Rightarrow> JNull)"

definition map_relationships :: "config \<Rightarrow> env \<Rightarrow> entry \<Rightarrow> entry io" where
  "map_relationships cfg env entry = for_items (relationship_field cfg env) entry entry"

subsection \<open>Components\<close>

text \<open>\<^verbatim>\<open>handle_components\<close> runs both passes on every nested mapping, one level down.
  The nested mappings are changed in place, which for the entry is an assignment of
  the changed component to its field.\<close>

definition component_passes :: "config \<Rightarrow> env \<Rightarrow> json \<Rightarrow> json io" where
  "component_passes cfg env c =
     (case c of
        JDict d \<Rightarrow>
          bind (handle_media_fields cfg env d) (\<lambda>d1.
          bind (map_relationships cfg env d1) (\<lambda>d2.
          ret (JDict d2)))
      | _ \<Rightarrow> ret c)"

definition component_field :: "config \<Rightarrow> env \<Rightarrow> json \<Rightarrow> json option io" where
  "component_field cfg env v =
     (case v of
        JList components \<Rightarrow>
          if list_all is_dict components then
            bind (map_io (component_passes cfg env) components) (\<lambda>cs. ret (Some (JList cs)))
          else ret None
      | JDict d \<Rightarrow> bind (component_passes cfg env v) (\<lambda>c. ret (Some c))
      | _ \<Rightarrow> ret None)"

definition handle_components :: "config \<Rightarrow> env \<Rightarrow> entry \<Rightarrow> entry io" where
  "handle_components cfg env entry = for_items (\<lambda>field. component_field cfg env) entry entry"

subsection \<open>The fetch stage\<close>

text \<open>One turn of the \<^verbatim>\<open>while True\<close> loop up to \<^verbatim>\<open>data = response.json()\<close>.\<close>

definition fetch_page :: "config \<Rightarrow> env \<Rightarrow> string \<Rightarrow> json \<Rightarrow> int \<Rightarrow> json io" where
  "fetch_page cfg env model_name token page =
     bind (send env (Page model_name token (BATCH_SIZE cfg) ((page - 1) * BATCH_SIZE cfg))) (\<lambda>r.
     bind (emit (Fetching_page page)) (\<lambda>_.
     bind (raise_for_status r) (\<lambda>_.
     response_json r)))"

text \<open>The loop has no bound of its own: it ends when a page is falsy or a call
  raises. Not returning is the value \<open>None\<close>.\<close>

partial_function (option) fetch_loop ::
  "config \<Rightarrow> env \<Rightarrow> string \<Rightarrow> json \<Rightarrow> json list \<Rightarrow> int \<Rightarrow> world \<Rightarrow> ((error + json list) \<times> world) option"
where
  "fetch_loop cfg env model_name token entries page w =
     (case fetch_page cfg env model_name token page w of
        (Inl e, w') \<Rightarrow> Some (Inl e, w')
      | (Inr data, w') \<Rightarrow>
          if \<not> truthy data then Some (Inr entries, w')
          else (case py_iter data of
                  Inl e \<Rightarrow> Some (Inl e, w')
                | Inr xs \<Rightarrow> fetch_loop cfg env model_name token (entries @ xs) (page + 1) w'))"

declare fetch_loop.simps [code]

definition fetch_entries_from_strapi_3 ::
  "config \<Rightarrow> env \<Rightarrow> string \<Rightarrow> json \<Rightarrow> world \<Rightarrow> ((error + json list) \<times> world) option"
where
  "fetch_entries_from_strapi_3 cfg env model_name token w =
     fetch_loop cfg env model_name token [] 1 w"

subsection \<open>The create stage\<close>

text \<open>\<^verbatim>\<open>json={"data": entry}\<close>.\<close>

definition create_body :: "entry \<Rightarrow> json" where
  "create_body entry = JDict [(''data'', JDict entry)]"

text \<open>\<^verbatim>\<open>entry["old_id"] = entry["id"]\<close> and the three \<^verbatim>\<open>pop\<close>s.\<close>

definition strip_metadata :: "json \<Rightarrow> entry \<Rightarrow> entry" where
  "strip_metadata old_id entry =
     AList.delete ''updated_at'' (AList.delete ''created_at'' (AList.delete ''id''
       (AList.update ''old_id'' old_id entry)))"

text \<open>The body of the loop of \<^verbatim>\<open>create_entries_in_strapi_4\<close> for one entry. An element
  that is not a mapping has no \<^verbatim>\<open>["id"]\<close>.\<close>

definition create_entry :: "config \<Rightarrow> env \<Rightarrow> string \<Rightarrow> json \<Rightarrow> unit io" where
  "create_entry cfg env model_name e =
     bind (lift (getitem_key e ''id'')) (\<lambda>old_id.
     (case e of
        JDict d \<Rightarrow>
          bind (handle_media_fields cfg env (strip_metadata old_id d)) (\<lambda>e1.
          bind (map_relationships cfg env e1) (\<lambda>e2.
          bind (handle_components cfg env e2) (\<lambda>e3.
          bind (send env (Create model_name (create_body e3))) (\<lambda>r.
          if status_code r \<noteq> 200 \<and> status_code r \<noteq> 201 then
            bind (emit (Failed_to_create e3)) (\<lambda>_. emit (Response_text (content r)))
          else emit (Successfully_migrated e3)))))
      | _ \<Rightarrow> raise TypeError))"

primrec create_entries_in_strapi_4 :: "config \<Rightarrow> env \<Rightarrow> string \<Rightarrow> json list \<Rightarrow> unit io" where
  "create_entries_in_strapi_4 cfg env model_name [] = ret ()"
| "create_entries_in_strapi_4 cfg env model_name (e # entries) =
     bind (create_entry cfg env model_name e) (\<lambda>_.
     create_entries_in_strapi_4 cfg env model_name entries)"

subsection \<open>The run\<close>

definition main :: "config \<Rightarrow> env \<Rightarrow> world \<Rightarrow> ((error + unit) \<times> world) option" where
  "main cfg env w =
     (case bind (emit Authenticating) (\<lambda>_.
           bind (get_strapi_3_token cfg env) (\<lambda>token.
           bind (emit (Fetching_entries (STRAPI_3_MODEL cfg))) (\<lambda>_. ret token))) w of
        (Inl e, w1) \<Rightarrow> Some (Inl e, w1)
      | (Inr token, w1) \<Rightarrow>
          (case fetch_entries_from_strapi_3 cfg env (STRAPI_3_MODEL cfg) token w1 of
             None \<Rightarrow> None
           | Some (Inl e, w2) \<Rightarrow> Some (Inl e, w2)
           | Some (Inr entries, w2) \<Rightarrow>
               Some (bind (emit (Fetched (length entries))) (\<lambda>_.
                     bind (emit Creating_entries) (\<lambda>_.
                     bind (create_entries_in_strapi_4 cfg env (STRAPI_4_MODEL cfg) entries) (\<lambda>_.
                     emit Migration_complete))) w2)))"

section \<open>Counting requests, and the spec's formula\<close>

fun is_page :: "request \<Rightarrow> bool" where
  "is_page (Page model_name token limit start) = True"
| "is_page _ = False"

fun is_create :: "request \<Rightarrow> bool" where
  "is_create (Create model_name body) = True"
| "is_create _ = False"

fun is_upload :: "request \<Rightarrow> bool" where
  "is_upload (Upload file_name bytes) = True"
| "is_upload _ = False"

definition page_requests :: "world \<Rightarrow> nat" where
  "page_requests w = length (filter is_page (requests w))"

definition create_requests :: "world \<Rightarrow> nat" where
  "create_requests w = length (filter is_create (requests w))"

text \<open>The number of page requests as the spec gives it, \<open>ceil((N+1)/P)\<close>, written from the
  spec's words to be compared with what the loop does.\<close>

definition spec_page_requests :: "nat \<Rightarrow> nat \<Rightarrow> nat" where
  "spec_page_requests n p = (n + 1 + p - 1) div p"

text \<open>A source that holds the entries \<open>src\<close> and serves them in pages: the answer to
  \<^verbatim>\<open>_limit=P&_start=k*P\<close>, whatever was sent before.\<close>

definition page_response :: "json list \<Rightarrow> nat \<Rightarrow> nat \<Rightarrow> response" where
  "page_response src limit start =
     \<lparr>status_code = 200, content = [], json_body = Some (JList (take limit (drop start src)))\<rparr>"

text \<open>A statement that sends no request of the kind \<open>p\<close>, whatever it returns.\<close>

definition sends_no :: "(request \<Rightarrow> bool) \<Rightarrow> 'a io \<Rightarrow> bool" where
  "sends_no p m = (\<forall>w. filter p (requests (snd (m w))) = filter p (requests w))"

section \<open>Example servers and entries\<close>

text \<open>
  A pair of servers to run the script against. The source holds three entries. The
  destination numbers uploads 101, 102, ... in the order they arrive, knows the old
  identifier 9 twice (as 42, then 43) and 8 once (as 41), and answers lookups and
  creations with the two status codes given.
\<close>

definition example_source :: "json list" where
  "example_source =
     [JDict [(''id'', JInt 5), (''title'', JStr ''A''), (''created_at'', JStr ''2020''),
             (''updated_at'', JStr ''2021'')],
      JDict [(''id'', JInt 6), (''title'', JStr ''B''), (''author'', JDict [(''id'', JInt 7)])],
      JDict [(''id'', JInt 7), (''title'', JStr ''C'')]]"

definition example_matches :: "json \<Rightarrow> json list" where
  "example_matches old_id =
     (if old_id = JInt 9 then [JDict [(''id'', JInt 42)], JDict [(''id'', JInt 43)]]
      else if old_id = JInt 8 then [JDict [(''id'', JInt 41)]]
      else [])"

definition example_server :: "int \<Rightarrow> int \<Rightarrow> request list \<Rightarrow> request \<Rightarrow> response option" where
  "example_server lookup_status create_status history req =
     (case req of
        Login email password \<Rightarrow>
          Some \<lparr>status_code = 200, content = [],
                json_body = Some (JDict [(''data'', JDict [(''token'', JStr ''jwt'')])])\<rparr>
      | Download media_url \<Rightarrow>
          Some \<lparr>status_code = 200, content = ''png'', json_body = None\<rparr>
      | Upload file_name bytes \<Rightarrow>
          Some \<lparr>status_code = 200, content = [],
                json_body = Some (JList [JDict [(''id'',
                  JInt (101 + int (length (filter is_upload history))))]])\<rparr>
      | Lookup model_name old_id \<Rightarrow>
          Some \<lparr>status_code = lookup_status, content = [],
                json_body = Some (JDict [(''data'', JList (example_matches old_id))])\<rparr>
      | Page model_name token limit start \<Rightarrow>
          Some (page_response example_source (nat limit) (nat start))
      | Create model_name body \<Rightarrow>
          Some \<lparr>status_code = create_status, content = ''body'', json_body = None\<rparr>)"

definition example_env :: "int \<Rightarrow> int \<Rightarrow> env" where
  "example_env lookup_status create_status =
     \<lparr>server = example_server lookup_status create_status,
      urljoin = (\<lambda>base u. base @ u),
      can_open_wb = (\<lambda>name. name \<noteq> [])\<rparr>"

definition example_config :: "string option \<Rightarrow> config" where
  "example_config relationship_fields_var =
     \<lparr>STRAPI_3_BASE_URL = ''http://old'', STRAPI_4_BASE_URL = ''http://new'',
      STRAPI_4_API_KEY = ''key'', STRAPI_3_EMAIL = ''me'', STRAPI_3_PASSWORD = ''pw'',
      STRAPI_3_MODEL = ''articles'', STRAPI_4_MODEL = ''articles'',
      RELATIONSHIP_FIELDS = relationship_fields_of relationship_fields_var,
      BATCH_SIZE = 10\<rparr>"

definition start_world :: world where
  "start_world = \<lparr>requests = [], files = [], stdout = []\<rparr>"

section \<open>Properties\<close>

subsection \<open>Laws of the statements\<close>

text \<open>Sequencing is associative, \<open>ret\<close> is its unit, and an exception skips what follows.\<close>

lemma bind_ret [simp]: "bind (ret x) f = f x"
  by (rule ext) (simp add: bind_def ret_def)

lemma bind_raise [simp]: "bind (raise e) f = raise e"
  by (rule ext) (simp add: bind_def raise_def)

lemma bind_ret_right [simp]: "bind m ret = m"
  by (rule ext) (simp add: bind_def ret_def split: prod.splits sum.splits)

lemma bind_assoc: "bind (bind m f) g = bind m (\<lambda>x. bind (f x) g)"
  by (rule ext) (simp add: bind_def split: prod.splits sum.splits)

lemma bind_Inr: "bind m f w = (Inr y, w') \<longleftrightarrow> (\<exists>x w1. m w = (Inr x, w1) \<and> f x w1 = (Inr y, w'))"
  by (auto simp add: bind_def split: prod.splits sum.splits)

subsection \<open>The field loop on an entry with distinct keys\<close>

text \<open>An assignment to the key being visited changes the entry at that position only, so
  a pass over an entry is the pass over its first fields followed by the pass over the
  others.\<close>

lemma update_fresh_prefix:
  "k \<notin> fst ` set pre \<Longrightarrow> AList.update k v (pre @ (k, u) # post) = pre @ (k, v) # post"
  by (induction pre) auto

lemma assign_at:
  "k \<notin> fst ` set pre \<Longrightarrow>
   assign k new (pre @ (k, u) # post) = pre @ (k, case new of None \<Rightarrow> u | Some v \<Rightarrow> v) # post"
  by (cases new) (simp_all add: assign_def update_fresh_prefix)

lemma assign_head:
  "assign k new ((k, u) # post) = (k, case new of None \<Rightarrow> u | Some v \<Rightarrow> v) # post"
  using assign_at [of k "[]" new u post] by simp

lemma for_items_prefix:
  "distinct (map fst (pre @ items)) \<Longrightarrow>
   for_items body items (pre @ items) =
     bind (for_items body items items) (\<lambda>items'. ret (pre @ items'))"
proof (induction items arbitrary: pre)
  case Nil
  then show ?case by simp
next
  case (Cons item items)
  obtain k u where item: "item = (k, u)" by (cases item)
  from Cons.prems item have fresh: "k \<notin> fst ` set pre"
    by auto
  have ih1: "for_items body items (pre @ (k, x) # items) =
      bind (for_items body items items) (\<lambda>items'. ret (pre @ (k, x) # items'))" for x
    using Cons.IH [of "pre @ [(k, x)]"] Cons.prems item by simp
  have ih2: "for_items body items ((k, x) # items) =
      bind (for_items body items items) (\<lambda>items'. ret ((k, x) # items'))" for x
    using Cons.IH [of "[(k, x)]"] Cons.prems item by simp
  show ?case
    by (simp add: item assign_at [OF fresh] assign_head ih1 ih2 bind_assoc)
qed

lemma for_items_Cons:
  assumes "distinct (map fst ((k, u) # items))"
  shows "for_items body ((k, u) # items) ((k, u) # items) =
     bind (body k u) (\<lambda>new.
     bind (for_items body items items) (\<lambda>items'.
     ret ((k, case new of None \<Rightarrow> u | Some v \<Rightarrow> v) # items')))"
proof -
  have p: "for_items body items ((k, x) # items) =
      bind (for_items body items items) (\<lambda>items'. ret ((k, x) # items'))" for x
    using for_items_prefix [of "[(k, x)]" items body] assms by simp
  show ?thesis
    by (simp add: assign_head p)
qed

lemma for_items_append:
  "distinct (map fst (pre @ post)) \<Longrightarrow>
   for_items body (pre @ post) (pre @ post) =
     bind (for_items body pre pre) (\<lambda>pre'.
     bind (for_items body post post) (\<lambda>post'. ret (pre' @ post')))"
proof (induction pre)
  case Nil
  then show ?case by simp
next
  case (Cons item pre)
  obtain k u where item: "item = (k, u)" by (cases item)
  have d: "distinct (map fst ((k, u) # (pre @ post)))" and d': "distinct (map fst ((k, u) # pre))"
    and d'': "distinct (map fst (pre @ post))"
    using Cons.prems item by auto
  show ?case
    unfolding item append_Cons for_items_Cons [OF d] for_items_Cons [OF d'] Cons.IH [OF d'']
    by (simp add: bind_assoc del: for_items.simps)
qed

lemma map_io_chain:
  "map_io f xs w = (Inr ys, w') \<Longrightarrow>
   length ys = length xs \<and>
   (\<exists>ws. length ws = Suc (length xs) \<and> ws ! 0 = w \<and> ws ! length xs = w' \<and>
         (\<forall>i<length xs. f (xs ! i) (ws ! i) = (Inr (ys ! i), ws ! Suc i)))"
proof (induction xs arbitrary: ys w)
  case Nil
  then have "ys = []" and "w' = w" by (simp_all add: ret_def)
  then show ?case by (auto intro: exI [of _ "[w]"])
next
  case (Cons x xs)
  from Cons.prems obtain y w1 ys' where
    step: "f x w = (Inr y, w1)" and rest: "map_io f xs w1 = (Inr ys', w')" and ys: "ys = y # ys'"
    by (auto simp add: bind_Inr ret_def)
  from Cons.IH [OF rest] obtain ws where
    len: "length ys' = length xs" and ws: "length ws = Suc (length xs)" "ws ! 0 = w1"
      "ws ! length xs = w'"
      and chain: "\<forall>i<length xs. f (xs ! i) (ws ! i) = (Inr (ys' ! i), ws ! Suc i)"
    by blast
  have "\<forall>i<length (x # xs). f ((x # xs) ! i) ((w # ws) ! i) = (Inr (ys ! i), (w # ws) ! Suc i)"
  proof (intro allI impI)
    fix i assume "i < length (x # xs)"
    then show "f ((x # xs) ! i) ((w # ws) ! i) = (Inr (ys ! i), (w # ws) ! Suc i)"
      using step chain ws ys by (cases i) simp_all
  qed
  then have "length (w # ws) = Suc (length (x # xs)) \<and> (w # ws) ! 0 = w \<and>
      (w # ws) ! length (x # xs) = w' \<and>
      (\<forall>i<length (x # xs). f ((x # xs) ! i) ((w # ws) ! i) = (Inr (ys ! i), (w # ws) ! Suc i))"
    using ws by simp
  then show ?case using len ys by (intro conjI exI [of _ "w # ws"]) simp_all
qed

lemma for_items_keys:
  "distinct (map fst items) \<Longrightarrow> for_items body items items w = (Inr items', w') \<Longrightarrow>
   map fst items' = map fst items"
proof (induction items arbitrary: items' w)
  case Nil
  then show ?case by (simp add: ret_def)
next
  case (Cons item items)
  obtain k u where item: "item = (k, u)" by (cases item)
  have d: "distinct (map fst ((k, u) # items))" and d': "distinct (map fst items)"
    using Cons.prems(1) item by auto
  from Cons.prems(2) obtain new w1 rest' where
    "for_items body items items w1 = (Inr rest', w')"
    "items' = (k, case new of None \<Rightarrow> u | Some v \<Rightarrow> v) # rest'"
    unfolding item for_items_Cons [OF d] by (auto simp add: bind_Inr ret_def)
  then show ?case using Cons.IH [OF d'] item by simp
qed

text \<open>A pass over \<open>pre @ (field, v) # post\<close> is the pass over \<open>pre\<close>, the body on the field, and
  the pass over \<open>post\<close>, in this order.\<close>

lemma for_items_at:
  assumes "distinct (map fst (pre @ (field, v) # post))"
  shows "for_items body (pre @ (field, v) # post) (pre @ (field, v) # post) =
     bind (for_items body pre pre) (\<lambda>pre'.
     bind (body field v) (\<lambda>new.
     bind (for_items body post post) (\<lambda>post'.
     ret (pre' @ (field, case new of None \<Rightarrow> v | Some x \<Rightarrow> x) # post'))))"
proof -
  have d: "distinct (map fst ((field, v) # post))"
    using assms by auto
  show ?thesis
    unfolding for_items_append [OF assms] for_items_Cons [OF d]
    by (simp add: bind_assoc del: for_items.simps)
qed

lemma for_items_at_Inr:
  assumes d: "distinct (map fst (pre @ (field, v) # post))"
      and run: "for_items body (pre @ (field, v) # post) (pre @ (field, v) # post) w = (Inr entry', w')"
  shows "\<exists>pre' post' new w1 w2.
           for_items body pre pre w = (Inr pre', w1) \<and>
           body field v w1 = (Inr new, w2) \<and>
           for_items body post post w2 = (Inr post', w') \<and>
           entry' = pre' @ (field, case new of None \<Rightarrow> v | Some x \<Rightarrow> x) # post' \<and>
           map_of entry' field = Some (case new of None \<Rightarrow> v | Some x \<Rightarrow> x)"
proof -
  from run obtain pre' w1 new w2 post' where
    1: "for_items body pre pre w = (Inr pre', w1)" and
    2: "body field v w1 = (Inr new, w2)" and
    3: "for_items body post post w2 = (Inr post', w')" and
    4: "entry' = pre' @ (field, case new of None \<Rightarrow> v | Some x \<Rightarrow> x) # post'"
    unfolding for_items_at [OF d] by (auto simp add: bind_Inr ret_def)
  have "distinct (map fst pre)" using d by simp
  from for_items_keys [OF this 1] have "map fst pre' = map fst pre" .
  moreover have "field \<notin> set (map fst pre)" using d by simp
  ultimately have "field \<notin> set (map fst pre')" by simp
  then have "map_of pre' field = None"
    by (simp add: map_of_eq_None_iff)
  then have "map_of entry' field = Some (case new of None \<Rightarrow> v | Some x \<Rightarrow> x)"
    unfolding 4 by (simp add: map_add_def)
  with 1 2 3 4 show ?thesis by blast
qed

subsection \<open>Running the script on the examples\<close>

text \<open>The definitions to unfold when the script is run on a concrete entry against the
  example servers.\<close>

lemmas script_defs =
  bind_def ret_def raise_def lift_def emit_def send_def raise_for_status_def response_json_def
  write_file_def read_file_def remove_file_def get_strapi_3_token_def download_media_def
  upload_media_to_strapi_4_def join_url_def media_transfer_def assign_def is_media_def
  url_of_def media_field_def handle_media_fields_def fetch_related_id_in_strapi_4_def
  connect_def relationship_field_def map_relationships_def component_passes_def
  component_field_def handle_components_def fetch_page_def create_body_def strip_metadata_def
  create_entry_def dict_get_def

lemmas example_defs =
  example_source_def example_matches_def example_server_def example_env_def example_config_def
  start_world_def page_response_def relationship_fields_of_def

lemma for_items_frame:
  assumes skip: "\<And>v. body k v = ret None"
      and run: "for_items body items entry w = (Inr entry', w')"
  shows "map_of entry' k = map_of entry k"
  using run
proof (induction items arbitrary: entry w)
  case Nil
  then show ?case by (simp add: ret_def)
next
  case (Cons item items)
  from Cons.prems obtain new w1 where
    b: "body (fst item) (snd item) w = (Inr new, w1)" and
    r: "for_items body items (assign (fst item) new entry) w1 = (Inr entry', w')"
    by (auto simp add: bind_Inr)
  have "map_of (assign (fst item) new entry) k = map_of entry k"
  proof (cases "fst item = k")
    case True
    with b skip have "new = None" by (simp add: ret_def)
    then show ?thesis by (simp add: assign_def)
  next
    case False
    then show ?thesis by (cases new) (simp_all add: assign_def update_conv')
  qed
  with Cons.IH [OF r] show ?case by simp
qed

subsection \<open>C7: fields outside the relationship-field set\<close>

text \<open>
  Claim C7. For every field whose name is not in the configured relationship-field set,
  the relationship pass leaves that field's value unchanged: whenever
  \<open>map_relationships\<close> returns, the entry it returns maps the field to what the entry it
  was given mapped it to, whatever the shape of the value (a mapping with \<^verbatim>\<open>id\<close>, a list
  of such mappings), so the field is never rewritten into a connect directive.
\<close>

theorem relationship_pass_leaves_unlisted_fields:
  assumes "field \<notin> set (RELATIONSHIP_FIELDS cfg)"
      and "map_relationships cfg env entry w = (Inr entry', w')"
  shows "map_of entry' field = map_of entry field"
proof -
  have "relationship_field cfg env field v = ret None" for v
    using assms(1) by (simp add: relationship_field_def)
  then show ?thesis
    using assms(2) unfolding map_relationships_def by (rule for_items_frame)
qed

theorem relationship_pass_leaves_unlisted_fields_witness:
  "''owner'' \<notin> set (RELATIONSHIP_FIELDS (example_config (Some ''author,tags''))) \<and>
   map_relationships (example_config (Some ''author,tags'')) (example_env 200 201)
     [(''owner'', JDict [(''id'', JInt 9)]), (''author'', JDict [(''id'', JInt 9)])] start_world =
     (Inr [(''owner'', JDict [(''id'', JInt 9)]),
           (''author'', JDict [(''connect'', JList [JDict [(''id'', JInt 42)]])])],
      start_world\<lparr>requests := [Lookup ''author'' (JInt 9)]\<rparr>) \<and>
   map_of [(''owner'', JDict [(''id'', JInt 9)]),
           (''author'', JDict [(''connect'', JList [JDict [(''id'', JInt 42)]])])] ''owner'' =
   map_of [(''owner'', JDict [(''id'', JInt 9)]), (''author'', JDict [(''id'', JInt 9)])] ''owner''"
proof -
  have h: "''owner'' \<notin> set (RELATIONSHIP_FIELDS (example_config (Some ''author,tags'')))"
    by (simp add: example_defs)
  have r: "map_relationships (example_config (Some ''author,tags'')) (example_env 200 201)
     [(''owner'', JDict [(''id'', JInt 9)]), (''author'', JDict [(''id'', JInt 9)])] start_world =
     (Inr [(''owner'', JDict [(''id'', JInt 9)]),
           (''author'', JDict [(''connect'', JList [JDict [(''id'', JInt 42)]])])],
      start_world\<lparr>requests := [Lookup ''author'' (JInt 9)]\<rparr>)"
    by (simp add: script_defs example_defs)
  from relationship_pass_leaves_unlisted_fields [OF h r] h r show ?thesis by simp
qed

lemma all_contain_references:
  "list_all is_reference vs \<Longrightarrow> all_contain ''id'' vs = Inr True"
  by (induction vs) (auto simp add: is_reference_def split: json.splits)

lemma getitem_reference:
  "is_reference x \<Longrightarrow> getitem_key x ''id'' = Inr (id_of x)"
  by (cases x)
    (auto simp add: is_reference_def id_of_def dict_get_def map_of_eq_None_iff
      split: option.splits)

lemma relationship_field_single:
  assumes "field \<in> set (RELATIONSHIP_FIELDS cfg)" and "map_of d ''id'' = Some x"
  shows "relationship_field cfg env field (JDict d) =
     bind (fetch_related_id_in_strapi_4 env field x)
       (\<lambda>r. ret (Some (JDict [(''connect'', JList [JDict [(''id'', r)]])])))"
proof -
  have "''id'' \<in> fst ` set d"
    using assms(2) by (metis map_of_eq_None_iff option.distinct(1))
  then show ?thesis
    using assms by (simp add: relationship_field_def connect_def dict_get_def)
qed

lemma relationship_field_list:
  assumes "field \<in> set (RELATIONSHIP_FIELDS cfg)" and "list_all is_reference vs"
  shows "relationship_field cfg env field (JList vs) =
     bind (map_io (\<lambda>x. bind (lift (getitem_key x ''id'')) (fetch_related_id_in_strapi_4 env field)) vs)
       (\<lambda>rs. ret (Some (JDict [(''connect'', JList (map (\<lambda>r. JDict [(''id'', r)]) rs))])))"
proof -
  have "bind (lift (Inr True)) f = f True" for f :: "bool \<Rightarrow> json option io"
    by (rule ext) (simp add: bind_def lift_def)
  then show ?thesis
    using assms by (simp add: relationship_field_def connect_def all_contain_references)
qed

subsection \<open>C2: the relationship pass on a listed field\<close>

text \<open>
  Claim C2. Take an entry with distinct keys and a field \<open>field\<close> of the configured
  relationship-field set, and let the relationship pass return. Then the pass is the pass
  over the fields before it (ending in the world \<open>w1\<close>), the rewrite of the field (ending in
  \<open>w2\<close>) and the pass over the fields after it, and the field holds \<open>new\<close> where
  \<^item> if the value is a single mapping whose \<^verbatim>\<open>id\<close> is \<open>x\<close>, \<open>new\<close> is
    \<^verbatim>\<open>{"connect": [{"id": r}]}\<close> for the identifier \<open>r\<close> the Relationship Resolver returns
    for the model name \<open>field\<close> and the old identifier \<open>x\<close>, called in \<open>w1\<close>;
  \<^item> if the value is a list whose elements are all mappings containing \<^verbatim>\<open>id\<close>, \<open>new\<close> is
    one \<^verbatim>\<open>{"connect": [...]}\<close> with as many \<^verbatim>\<open>{"id": r}\<close> as the list has elements, the
    \<open>i\<close>-th \<open>r\<close> being the resolver's answer for the \<open>i\<close>-th element's \<^verbatim>\<open>id\<close>; the
    lookups run one after the other in the order of the list (the worlds \<open>ws\<close>).
\<close>

theorem relationship_pass_connects_resolved_ids:
  assumes "distinct (map fst (pre @ (field, v) # post))"
      and "field \<in> set (RELATIONSHIP_FIELDS cfg)"
      and "map_relationships cfg env (pre @ (field, v) # post) w = (Inr entry', w')"
  shows "\<exists>pre' post' new w1 w2.
           map_relationships cfg env pre w = (Inr pre', w1) \<and>
           map_relationships cfg env post w2 = (Inr post', w') \<and>
           entry' = pre' @ (field, new) # post' \<and>
           map_of entry' field = Some new \<and>
           (\<forall>d x. v = JDict d \<and> map_of d ''id'' = Some x \<longrightarrow>
              (\<exists>r. fetch_related_id_in_strapi_4 env field x w1 = (Inr r, w2) \<and>
                   new = JDict [(''connect'', JList [JDict [(''id'', r)]])])) \<and>
           (\<forall>vs. v = JList vs \<and> list_all is_reference vs \<longrightarrow>
              (\<exists>rs ws. new = JDict [(''connect'', JList (map (\<lambda>r. JDict [(''id'', r)]) rs))] \<and>
                 length rs = length vs \<and> length ws = Suc (length vs) \<and>
                 ws ! 0 = w1 \<and> ws ! length vs = w2 \<and>
                 (\<forall>i<length vs. fetch_related_id_in_strapi_4 env field (id_of (vs ! i)) (ws ! i) =
                                   (Inr (rs ! i), ws ! Suc i))))"
proof -
  let ?body = "relationship_field cfg env"
  from for_items_at_Inr [OF assms(1) assms(3) [unfolded map_relationships_def]]
  obtain pre' post' new w1 w2 where
    1: "for_items ?body pre pre w = (Inr pre', w1)" and
    2: "?body field v w1 = (Inr new, w2)" and
    3: "for_items ?body post post w2 = (Inr post', w')" and
    4: "entry' = pre' @ (field, case new of None \<Rightarrow> v | Some x \<Rightarrow> x) # post'" and
    5: "map_of entry' field = Some (case new of None \<Rightarrow> v | Some x \<Rightarrow> x)"
    by blast
  let ?new = "case new of None \<Rightarrow> v | Some x \<Rightarrow> x"
  have single: "\<exists>r. fetch_related_id_in_strapi_4 env field x w1 = (Inr r, w2) \<and>
      ?new = JDict [(''connect'', JList [JDict [(''id'', r)]])]"
    if "v = JDict d" and "map_of d ''id'' = Some x" for d x
    using 2 unfolding that(1) relationship_field_single [OF assms(2) that(2)]
    by (auto simp add: bind_Inr ret_def)
  have many: "\<exists>rs ws. ?new = JDict [(''connect'', JList (map (\<lambda>r. JDict [(''id'', r)]) rs))] \<and>
      length rs = length vs \<and> length ws = Suc (length vs) \<and> ws ! 0 = w1 \<and> ws ! length vs = w2 \<and>
      (\<forall>i<length vs. fetch_related_id_in_strapi_4 env field (id_of (vs ! i)) (ws ! i) =
                        (Inr (rs ! i), ws ! Suc i))"
    if v: "v = JList vs" and refs: "list_all is_reference vs" for vs
  proof -
    let ?f = "\<lambda>x. bind (lift (getitem_key x ''id'')) (fetch_related_id_in_strapi_4 env field)"
    from 2 obtain rs where
      m: "map_io ?f vs w1 = (Inr rs, w2)" and
      n: "?new = JDict [(''connect'', JList (map (\<lambda>r. JDict [(''id'', r)]) rs))]"
      unfolding v relationship_field_list [OF assms(2) refs]
      by (auto simp add: bind_Inr ret_def)
    from map_io_chain [OF m] obtain ws where
      len: "length rs = length vs" "length ws = Suc (length vs)" "ws ! 0 = w1" "ws ! length vs = w2"
      and chain: "\<forall>i<length vs. ?f (vs ! i) (ws ! i) = (Inr (rs ! i), ws ! Suc i)"
      by blast
    have "fetch_related_id_in_strapi_4 env field (id_of (vs ! i)) (ws ! i) = (Inr (rs ! i), ws ! Suc i)"
      if "i < length vs" for i
    proof -
      from refs that have "is_reference (vs ! i)" by (simp add: list_all_length)
      then have eq: "?f (vs ! i) = fetch_related_id_in_strapi_4 env field (id_of (vs ! i))"
        by (simp add: getitem_reference bind_def lift_def fun_eq_iff)
      from chain that have "?f (vs ! i) (ws ! i) = (Inr (rs ! i), ws ! Suc i)"
        by blast
      then show ?thesis unfolding eq .
    qed
    with n len show ?thesis by blast
  qed
  from 1 3 4 5 single many show ?thesis
    unfolding map_relationships_def by blast
qed

theorem relationship_pass_connects_resolved_ids_witness:
  "distinct (map fst ([(''title'', JStr ''A'')] @ (''author'', JDict [(''id'', JInt 9)]) #
      [(''tags'', JList [JDict [(''id'', JInt 8)], JDict [(''id'', JInt 9)]])])) \<and>
   ''author'' \<in> set (RELATIONSHIP_FIELDS (example_config (Some ''author,tags''))) \<and>
   map_relationships (example_config (Some ''author,tags'')) (example_env 200 201)
     ([(''title'', JStr ''A'')] @ (''author'', JDict [(''id'', JInt 9)]) #
      [(''tags'', JList [JDict [(''id'', JInt 8)], JDict [(''id'', JInt 9)]])]) start_world =
     (Inr [(''title'', JStr ''A''),
           (''author'', JDict [(''connect'', JList [JDict [(''id'', JInt 42)]])]),
           (''tags'', JDict [(''connect'', JList [JDict [(''id'', JInt 41)], JDict [(''id'', JInt 42)]])])],
      start_world\<lparr>requests := [Lookup ''author'' (JInt 9), Lookup ''tags'' (JInt 8),
                                Lookup ''tags'' (JInt 9)]\<rparr>) \<and>
   (\<exists>r w1 w2. fetch_related_id_in_strapi_4 (example_env 200 201) ''author'' (JInt 9) w1 = (Inr r, w2) \<and>
      map_of [(''title'', JStr ''A''),
           (''author'', JDict [(''connect'', JList [JDict [(''id'', JInt 42)]])]),
           (''tags'', JDict [(''connect'', JList [JDict [(''id'', JInt 41)], JDict [(''id'', JInt 42)]])])]
        ''author'' = Some (JDict [(''connect'', JList [JDict [(''id'', r)]])]))"
proof -
  let ?cfg = "example_config (Some ''author,tags'')"
  let ?E = "[(''title'', JStr ''A''),
           (''author'', JDict [(''connect'', JList [JDict [(''id'', JInt 42)]])]),
           (''tags'', JDict [(''connect'', JList [JDict [(''id'', JInt 41)], JDict [(''id'', JInt 42)]])])]"
  have d: "distinct (map fst ([(''title'', JStr ''A'')] @ (''author'', JDict [(''id'', JInt 9)]) #
      [(''tags'', JList [JDict [(''id'', JInt 8)], JDict [(''id'', JInt 9)]])]))"
    by simp
  have m: "''author'' \<in> set (RELATIONSHIP_FIELDS ?cfg)"
    by (simp add: example_defs)
  have r: "map_relationships ?cfg (example_env 200 201)
     ([(''title'', JStr ''A'')] @ (''author'', JDict [(''id'', JInt 9)]) #
      [(''tags'', JList [JDict [(''id'', JInt 8)], JDict [(''id'', JInt 9)]])]) start_world =
     (Inr ?E,
      start_world\<lparr>requests := [Lookup ''author'' (JInt 9), Lookup ''tags'' (JInt 8),
                                Lookup ''tags'' (JInt 9)]\<rparr>)"
    by (simp add: script_defs example_defs)
  from relationship_pass_connects_resolved_ids [OF d m r]
  obtain new w1 w2 where
    n: "map_of ?E ''author'' = Some new" and
    s: "\<forall>d x. JDict [(''id'', JInt 9)] = JDict d \<and> map_of d ''id'' = Some x \<longrightarrow>
          (\<exists>r. fetch_related_id_in_strapi_4 (example_env 200 201) ''author'' x w1 = (Inr r, w2) \<and>
               new = JDict [(''connect'', JList [JDict [(''id'', r)]])])"
    by (elim exE conjE) (rule that, assumption+)
  from s have "JDict [(''id'', JInt 9)] = JDict [(''id'', JInt 9)] \<and>
       map_of [(''id'', JInt 9)] ''id'' = Some (JInt 9) \<longrightarrow>
       (\<exists>r. fetch_related_id_in_strapi_4 (example_env 200 201) ''author'' (JInt 9) w1 = (Inr r, w2) \<and>
               new = JDict [(''connect'', JList [JDict [(''id'', r)]])])"
    by (elim allE)
  then obtain r where
    "fetch_related_id_in_strapi_4 (example_env 200 201) ''author'' (JInt 9) w1 = (Inr r, w2)"
    "new = JDict [(''connect'', JList [JDict [(''id'', r)]])]"
    by auto
  with n have c: "\<exists>r w1 w2. fetch_related_id_in_strapi_4 (example_env 200 201) ''author'' (JInt 9) w1 = (Inr r, w2) \<and>
      map_of ?E ''author'' = Some (JDict [(''connect'', JList [JDict [(''id'', r)]])])"
    by (intro exI [of _ r] exI [of _ w1] exI [of _ w2] conjI) simp_all
  from d m r c show ?thesis by (intro conjI)
qed

subsection \<open>C10: a listed field holding the empty list\<close>

text \<open>
  Claim C10. For a field of the configured relationship-field set whose value is the
  empty list, the relationship pass replaces the value with \<^verbatim>\<open>{"connect": []}\<close> and
  performs no resolver lookup: the rewrite of the field returns that directive and leaves
  the world (the requests sent) as it was, and on an entry with distinct keys the pass is
  the pass over the fields before it followed at once by the pass over the fields after
  it, with the directive in between.
\<close>

theorem empty_relation_list_connects_nothing:
  assumes "distinct (map fst (pre @ (field, JList []) # post))"
      and "field \<in> set (RELATIONSHIP_FIELDS cfg)"
  shows "relationship_field cfg env field (JList []) w =
           (Inr (Some (JDict [(''connect'', JList [])])), w) \<and>
         map_relationships cfg env (pre @ (field, JList []) # post) =
           bind (map_relationships cfg env pre) (\<lambda>pre'.
           bind (map_relationships cfg env post) (\<lambda>post'.
           ret (pre' @ (field, JDict [(''connect'', JList [])]) # post')))"
proof -
  have body: "relationship_field cfg env field (JList []) = ret (Some (JDict [(''connect'', JList [])]))"
    using assms(2) by (simp add: relationship_field_def connect_def bind_def lift_def ret_def fun_eq_iff)
  show ?thesis
    unfolding map_relationships_def for_items_at [OF assms(1)] body
    by (simp add: ret_def del: for_items.simps)
qed

theorem empty_relation_list_connects_nothing_witness:
  "distinct (map fst ([(''author'', JDict [(''id'', JInt 8)])] @ (''tags'', JList []) #
      [(''title'', JStr ''A'')])) \<and>
   ''tags'' \<in> set (RELATIONSHIP_FIELDS (example_config (Some ''author,tags''))) \<and>
   map_relationships (example_config (Some ''author,tags'')) (example_env 200 201)
     ([(''author'', JDict [(''id'', JInt 8)])] @ (''tags'', JList []) # [(''title'', JStr ''A'')])
     start_world =
     (Inr [(''author'', JDict [(''connect'', JList [JDict [(''id'', JInt 41)]])]),
           (''tags'', JDict [(''connect'', JList [])]), (''title'', JStr ''A'')],
      start_world\<lparr>requests := [Lookup ''author'' (JInt 8)]\<rparr>)"
proof -
  let ?cfg = "example_config (Some ''author,tags'')"
  have d: "distinct (map fst ([(''author'', JDict [(''id'', JInt 8)])] @ (''tags'', JList []) #
      [(''title'', JStr ''A'')]))"
    by simp
  have m: "''tags'' \<in> set (RELATIONSHIP_FIELDS ?cfg)"
    by (simp add: example_defs)
  have pre: "map_relationships ?cfg (example_env 200 201) [(''author'', JDict [(''id'', JInt 8)])]
     start_world = (Inr [(''author'', JDict [(''connect'', JList [JDict [(''id'', JInt 41)]])])],
       start_world\<lparr>requests := [Lookup ''author'' (JInt 8)]\<rparr>)"
    by (simp add: script_defs example_defs)
  have post: "map_relationships ?cfg (example_env 200 201) [(''title'', JStr ''A'')] w =
     (Inr [(''title'', JStr ''A'')], w)" for w
    by (simp add: script_defs example_defs)
  have "map_relationships ?cfg (example_env 200 201)
     ([(''author'', JDict [(''id'', JInt 8)])] @ (''tags'', JList []) # [(''title'', JStr ''A'')])
     start_world =
     (Inr [(''author'', JDict [(''connect'', JList [JDict [(''id'', JInt 41)]])]),
           (''tags'', JDict [(''connect'', JList [])]), (''title'', JStr ''A'')],
      start_world\<lparr>requests := [Lookup ''author'' (JInt 8)]\<rparr>)"
    using empty_relation_list_connects_nothing [OF d m, of "example_env 200 201" start_world]
    by (simp add: bind_def ret_def pre post)
  with d m show ?thesis by (intro conjI)
qed

subsection \<open>C1: the media pass\<close>

lemma media_field_single:
  assumes "truthy (dict_get d ''url'')"
  shows "media_field cfg env (JDict d) =
     bind (media_transfer cfg env (dict_get d ''url'')) (\<lambda>media_id. ret (Some media_id))"
  using assms by (simp add: media_field_def is_media_def url_of_def)

lemma media_field_list:
  assumes "list_all is_media media_items"
  shows "media_field cfg env (JList media_items) =
     bind (map_io (\<lambda>media_item. media_transfer cfg env (url_of media_item)) media_items)
       (\<lambda>media_ids. ret (Some (JList media_ids)))"
  using assms by (simp add: media_field_def is_media_def)

text \<open>
  Claim C1. Take an entry with distinct keys and let the media pass return. Then the pass
  is the pass over the fields before \<open>field\<close> (ending in the world \<open>w1\<close>), the rewrite of
  the field (ending in \<open>w2\<close>) and the pass over the fields after it, and the field holds
  \<open>new\<close> where
  \<^item> if the value is a single mapping with a non-empty (truthy) \<^verbatim>\<open>url\<close>, \<open>new\<close> is exactly
    the identifier Media Transfer returns for that \<^verbatim>\<open>url\<close>, called in \<open>w1\<close>: the
    \<^verbatim>\<open>id\<close> of the destination's upload answer, not the mapping;
  \<^item> if the value is a list whose elements are all mappings with a non-empty \<^verbatim>\<open>url\<close>,
    \<open>new\<close> is a list of the same length whose \<open>i\<close>-th element is the identifier Media
    Transfer returns for the \<open>i\<close>-th element's \<^verbatim>\<open>url\<close>; the transfers run one after the
    other in the order of the list (the worlds \<open>ws\<close>), one per element.
\<close>

theorem media_pass_replaces_by_transfer_ids:
  assumes "distinct (map fst (pre @ (field, v) # post))"
      and "handle_media_fields cfg env (pre @ (field, v) # post) w = (Inr entry', w')"
  shows "\<exists>pre' post' new w1 w2.
           handle_media_fields cfg env pre w = (Inr pre', w1) \<and>
           handle_media_fields cfg env post w2 = (Inr post', w') \<and>
           entry' = pre' @ (field, new) # post' \<and>
           map_of entry' field = Some new \<and>
           (\<forall>d. v = JDict d \<and> truthy (dict_get d ''url'') \<longrightarrow>
              media_transfer cfg env (dict_get d ''url'') w1 = (Inr new, w2)) \<and>
           (\<forall>media_items. v = JList media_items \<and> list_all is_media media_items \<longrightarrow>
              (\<exists>media_ids ws. new = JList media_ids \<and>
                 length media_ids = length media_items \<and> length ws = Suc (length media_items) \<and>
                 ws ! 0 = w1 \<and> ws ! length media_items = w2 \<and>
                 (\<forall>i<length media_items.
                    media_transfer cfg env (url_of (media_items ! i)) (ws ! i) =
                      (Inr (media_ids ! i), ws ! Suc i))))"
proof -
  let ?body = "\<lambda>field. media_field cfg env"
  from for_items_at_Inr [OF assms(1) assms(2) [unfolded handle_media_fields_def]]
  obtain pre' post' new w1 w2 where
    1: "for_items ?body pre pre w = (Inr pre', w1)" and
    2: "media_field cfg env v w1 = (Inr new, w2)" and
    3: "for_items ?body post post w2 = (Inr post', w')" and
    4: "entry' = pre' @ (field, case new of None \<Rightarrow> v | Some x \<Rightarrow> x) # post'" and
    5: "map_of entry' field = Some (case new of None \<Rightarrow> v | Some x \<Rightarrow> x)"
    by (elim exE conjE) (rule that, assumption+)
  let ?new = "case new of None \<Rightarrow> v | Some x \<Rightarrow> x"
  have single: "media_transfer cfg env (dict_get d ''url'') w1 = (Inr ?new, w2)"
    if "v = JDict d" and "truthy (dict_get d ''url'')" for d
    using 2 unfolding that(1) media_field_single [OF that(2)]
    by (auto simp add: bind_Inr ret_def)
  have many: "\<exists>media_ids ws. ?new = JList media_ids \<and>
      length media_ids = length media_items \<and> length ws = Suc (length media_items) \<and>
      ws ! 0 = w1 \<and> ws ! length media_items = w2 \<and>
      (\<forall>i<length media_items.
         media_transfer cfg env (url_of (media_items ! i)) (ws ! i) =
           (Inr (media_ids ! i), ws ! Suc i))"
    if v: "v = JList media_items" and all: "list_all is_media media_items" for media_items
  proof -
    let ?f = "\<lambda>media_item. media_transfer cfg env (url_of media_item)"
    from 2 obtain media_ids where
      m: "map_io ?f media_items w1 = (Inr media_ids, w2)" and
      n: "?new = JList media_ids"
      unfolding v media_field_list [OF all]
      by (auto simp add: bind_Inr ret_def)
    from map_io_chain [OF m] n show ?thesis
      by (elim exE conjE) (intro exI conjI, assumption+)
  qed
  from 1 3 4 5 single many show ?thesis
    unfolding handle_media_fields_def
    by (intro exI [of _ pre'] exI [of _ post'] exI [of _ ?new] exI [of _ w1] exI [of _ w2] conjI allI impI)
      (assumption | elim conjE | blast)+
qed

theorem media_pass_replaces_by_transfer_ids_witness:
  "distinct (map fst ([(''title'', JStr ''A'')] @ (''cover'', JDict [(''url'', JStr ''/img.png'')]) #
      [(''gallery'', JList [JDict [(''url'', JStr ''/a.png'')], JDict [(''url'', JStr ''/b.png'')]])])) \<and>
   handle_media_fields (example_config None) (example_env 200 201)
     ([(''title'', JStr ''A'')] @ (''cover'', JDict [(''url'', JStr ''/img.png'')]) #
      [(''gallery'', JList [JDict [(''url'', JStr ''/a.png'')], JDict [(''url'', JStr ''/b.png'')]])])
     start_world =
     (Inr [(''title'', JStr ''A''), (''cover'', JInt 101), (''gallery'', JList [JInt 102, JInt 103])],
      start_world\<lparr>requests :=
        [Download ''http://old/img.png'', Upload ''img.png'' ''png'',
         Download ''http://old/a.png'', Upload ''a.png'' ''png'',
         Download ''http://old/b.png'', Upload ''b.png'' ''png'']\<rparr>) \<and>
   (\<exists>w1 w2. media_transfer (example_config None) (example_env 200 201) (JStr ''/img.png'') w1 =
      (Inr (JInt 101), w2))"
proof -
  let ?cfg = "example_config None"
  let ?E = "[(''title'', JStr ''A''), (''cover'', JInt 101), (''gallery'', JList [JInt 102, JInt 103])]"
  have d: "distinct (map fst ([(''title'', JStr ''A'')] @ (''cover'', JDict [(''url'', JStr ''/img.png'')]) #
      [(''gallery'', JList [JDict [(''url'', JStr ''/a.png'')], JDict [(''url'', JStr ''/b.png'')]])]))"
    by simp
  have r: "handle_media_fields ?cfg (example_env 200 201)
     ([(''title'', JStr ''A'')] @ (''cover'', JDict [(''url'', JStr ''/img.png'')]) #
      [(''gallery'', JList [JDict [(''url'', JStr ''/a.png'')], JDict [(''url'', JStr ''/b.png'')]])])
     start_world =
     (Inr ?E,
      start_world\<lparr>requests :=
        [Download ''http://old/img.png'', Upload ''img.png'' ''png'',
         Download ''http://old/a.png'', Upload ''a.png'' ''png'',
         Download ''http://old/b.png'', Upload ''b.png'' ''png'']\<rparr>)"
    by (simp add: script_defs example_defs)
  from media_pass_replaces_by_transfer_ids [OF d r]
  obtain new w1 w2 where
    n: "map_of ?E ''cover'' = Some new" and
    s: "\<forall>d. JDict [(''url'', JStr ''/img.png'')] = JDict d \<and> truthy (dict_get d ''url'') \<longrightarrow>
          media_transfer ?cfg (example_env 200 201) (dict_get d ''url'') w1 = (Inr new, w2)"
    by (elim exE conjE) (rule that, assumption+)
  from n have new: "new = JInt 101" by simp
  from s have "JDict [(''url'', JStr ''/img.png'')] = JDict [(''url'', JStr ''/img.png'')] \<and>
       truthy (dict_get [(''url'', JStr ''/img.png'')] ''url'') \<longrightarrow>
       media_transfer ?cfg (example_env 200 201) (dict_get [(''url'', JStr ''/img.png'')] ''url'') w1 =
         (Inr new, w2)"
    by (elim allE)
  then have "media_transfer ?cfg (example_env 200 201) (JStr ''/img.png'') w1 = (Inr (JInt 101), w2)"
    by (simp add: dict_get_def new)
  then have c: "\<exists>w1 w2. media_transfer ?cfg (example_env 200 201) (JStr ''/img.png'') w1 =
      (Inr (JInt 101), w2)"
    by (intro exI)
  from d r c show ?thesis by (intro conjI)
qed

subsection \<open>C5: the outcomes of the Relationship Resolver\<close>

lemma send_answer:
  "server env (requests w) req = Some r \<Longrightarrow>
   send env req w = (Inr r, w\<lparr>requests := requests w @ [req]\<rparr>)"
  by (simp add: send_def)

text \<open>The lookup once the destination has answered with a good status and a body whose
  \<^verbatim>\<open>data\<close> is a list.\<close>

lemma fetch_related_id_answered:
  assumes "server env (requests w) (Lookup model_name old_id) = Some r"
      and "\<not> (400 \<le> status_code r \<and> status_code r < 600)"
      and "json_body r = Some (JDict body)"
      and "map_of body ''data'' = Some (JList matches)"
  shows "fetch_related_id_in_strapi_4 env model_name old_id w =
     (case matches of
        [] \<Rightarrow> Inl (ValueError old_id)
      | first # _ \<Rightarrow> getitem_key first ''id'',
      w\<lparr>requests := requests w @ [Lookup model_name old_id]\<rparr>)"
  using assms
  by (cases matches)
    (auto simp add: fetch_related_id_in_strapi_4_def bind_def send_answer raise_for_status_def
      response_json_def ret_def raise_def lift_def)

lemma fetch_related_id_bad_status:
  assumes "server env (requests w) (Lookup model_name old_id) = Some r"
      and "400 \<le> status_code r \<and> status_code r < 600"
  shows "fetch_related_id_in_strapi_4 env model_name old_id w =
     (Inl (HTTPError (status_code r)), w\<lparr>requests := requests w @ [Lookup model_name old_id]\<rparr>)"
  using assms
  by (simp add: fetch_related_id_in_strapi_4_def bind_def send_answer raise_for_status_def raise_def)

text \<open>
  Claim C5, as amended. Let the destination answer the lookup for a model name and an old
  identifier. If the status is not an error status and the body's \<^verbatim>\<open>data\<close> is a list of
  matches, the lookup fails with the not-found error (\<^verbatim>\<open>ValueError\<close>, the spec's
  NotFoundError) exactly when the list is empty, and returns the \<^verbatim>\<open>id\<close> of the first match
  in the returned order when the list starts with a mapping that has one. These are not
  its only outcomes: if the status is 4xx or 5xx, \<^verbatim>\<open>raise_for_status\<close> makes the lookup
  fail with an HTTP error, whatever the matches. In each case one request is sent.
\<close>

theorem resolver_outcomes:
  assumes "server env (requests w) (Lookup model_name old_id) = Some r"
  shows "(\<not> (400 \<le> status_code r \<and> status_code r < 600) \<and>
          json_body r = Some (JDict body) \<and> map_of body ''data'' = Some (JList matches) \<longrightarrow>
            ((\<exists>x. fst (fetch_related_id_in_strapi_4 env model_name old_id w) = Inl (ValueError x))
               \<longleftrightarrow> matches = []) \<and>
            (matches = [] \<longrightarrow>
               fst (fetch_related_id_in_strapi_4 env model_name old_id w) = Inl (ValueError old_id)) \<and>
            (\<forall>d rest i. matches = JDict d # rest \<and> map_of d ''id'' = Some i \<longrightarrow>
               fst (fetch_related_id_in_strapi_4 env model_name old_id w) = Inr i)) \<and>
         (400 \<le> status_code r \<and> status_code r < 600 \<longrightarrow>
            fst (fetch_related_id_in_strapi_4 env model_name old_id w) = Inl (HTTPError (status_code r))) \<and>
         requests (snd (fetch_related_id_in_strapi_4 env model_name old_id w)) =
           requests w @ [Lookup model_name old_id]"
proof -
  have log: "requests (snd (fetch_related_id_in_strapi_4 env model_name old_id w)) =
      requests w @ [Lookup model_name old_id]"
    using assms
    by (simp add: fetch_related_id_in_strapi_4_def bind_def send_answer split: prod.splits sum.splits)
      (auto simp add: raise_for_status_def response_json_def raise_def ret_def lift_def
        split: if_splits option.splits)
  have bad: "fst (fetch_related_id_in_strapi_4 env model_name old_id w) = Inl (HTTPError (status_code r))"
    if "400 \<le> status_code r \<and> status_code r < 600"
    by (simp add: fetch_related_id_bad_status [OF assms that])
  have good: "((\<exists>x. fst (fetch_related_id_in_strapi_4 env model_name old_id w) = Inl (ValueError x))
               \<longleftrightarrow> matches = []) \<and>
            (matches = [] \<longrightarrow>
               fst (fetch_related_id_in_strapi_4 env model_name old_id w) = Inl (ValueError old_id)) \<and>
            (\<forall>d rest i. matches = JDict d # rest \<and> map_of d ''id'' = Some i \<longrightarrow>
               fst (fetch_related_id_in_strapi_4 env model_name old_id w) = Inr i)"
    if "\<not> (400 \<le> status_code r \<and> status_code r < 600)" "json_body r = Some (JDict body)"
      "map_of body ''data'' = Some (JList matches)"
  proof (cases matches)
    case Nil
    then show ?thesis
      by (simp add: fetch_related_id_answered [OF assms that])
  next
    case (Cons first rest)
    have "getitem_key first ''id'' \<noteq> Inl (ValueError x)" for x
      by (cases first) (simp_all split: option.splits)
    with Cons show ?thesis
      by (simp add: fetch_related_id_answered [OF assms that])
  qed
  from log bad good show ?thesis by blast
qed

theorem resolver_outcomes_witness:
  "server (example_env 200 201) (requests start_world) (Lookup ''author'' (JInt 9)) =
     Some \<lparr>status_code = 200, content = [],
           json_body = Some (JDict [(''data'', JList [JDict [(''id'', JInt 42)], JDict [(''id'', JInt 43)]])])\<rparr> \<and>
   fst (fetch_related_id_in_strapi_4 (example_env 200 201) ''author'' (JInt 9) start_world) =
     Inr (JInt 42) \<and>
   requests (snd (fetch_related_id_in_strapi_4 (example_env 200 201) ''author'' (JInt 9) start_world)) =
     requests start_world @ [Lookup ''author'' (JInt 9)]"
proof -
  let ?r = "\<lparr>status_code = 200, content = [],
           json_body = Some (JDict [(''data'', JList [JDict [(''id'', JInt 42)], JDict [(''id'', JInt 43)]])])\<rparr>"
  have a: "server (example_env 200 201) (requests start_world) (Lookup ''author'' (JInt 9)) = Some ?r"
    by (simp add: example_defs)
  from resolver_outcomes [OF a, of "[(''data'', JList [JDict [(''id'', JInt 42)], JDict [(''id'', JInt 43)]])]"
      "[JDict [(''id'', JInt 42)], JDict [(''id'', JInt 43)]]"]
  have "fst (fetch_related_id_in_strapi_4 (example_env 200 201) ''author'' (JInt 9) start_world) =
     Inr (JInt 42) \<and>
   requests (snd (fetch_related_id_in_strapi_4 (example_env 200 201) ''author'' (JInt 9) start_world)) =
     requests start_world @ [Lookup ''author'' (JInt 9)]"
    by simp
  with a show ?thesis by (intro conjI) simp_all
qed

text \<open>The claim as stated fails: the destination holds two matches for the old identifier
  9 and answers the query with the status 500; the lookup then ends with an HTTP error, a
  third outcome.\<close>

theorem resolver_third_outcome_counterexample:
  "server (example_env 500 201) [] (Lookup ''author'' (JInt 9)) =
     Some \<lparr>status_code = 500, content = [],
           json_body = Some (JDict [(''data'', JList [JDict [(''id'', JInt 42)], JDict [(''id'', JInt 43)]])])\<rparr> \<and>
   fetch_related_id_in_strapi_4 (example_env 500 201) ''author'' (JInt 9) start_world =
     (Inl (HTTPError 500), start_world\<lparr>requests := [Lookup ''author'' (JInt 9)]\<rparr>)"
  by (simp add: script_defs example_defs)

subsection \<open>C6: the creation response\<close>

text \<open>What the loop body of the create stage does once the three passes have returned and
  the destination has answered the creation request.\<close>

lemma create_entry_answered:
  assumes "map_of d ''id'' = Some old_id"
      and "handle_media_fields cfg env (strip_metadata old_id d) w = (Inr e1, w1)"
      and "map_relationships cfg env e1 w1 = (Inr e2, w2)"
      and "handle_components cfg env e2 w2 = (Inr e3, w3)"
      and "server env (requests w3) (Create model_name (create_body e3)) = Some r"
  shows "create_entry cfg env model_name (JDict d) w =
     (Inr (),
      w3\<lparr>requests := requests w3 @ [Create model_name (create_body e3)],
         stdout := stdout w3 @
           (if status_code r \<noteq> 200 \<and> status_code r \<noteq> 201
            then [Failed_to_create e3, Response_text (content r)]
            else [Successfully_migrated e3])\<rparr>)"
  using assms
  by (simp add: create_entry_def bind_def lift_def send_answer emit_def)

text \<open>
  Claim C6, as amended. For an entry whose three passes return and whose creation request
  the destination answers, the create stage records a success (the line
  \<^verbatim>\<open>Successfully migrated entry\<close>) exactly when the status is 200 or 201, and otherwise
  (any other status, other 2xx codes such as 204 included) prints the failure with the
  entry payload and the response body; in both cases nothing is raised and the stage goes
  on with the entries that follow, from the world the entry left.
\<close>

theorem create_stage_records_and_continues:
  assumes "map_of d ''id'' = Some old_id"
      and "handle_media_fields cfg env (strip_metadata old_id d) w = (Inr e1, w1)"
      and "map_relationships cfg env e1 w1 = (Inr e2, w2)"
      and "handle_components cfg env e2 w2 = (Inr e3, w3)"
      and "server env (requests w3) (Create model_name (create_body e3)) = Some r"
  shows "create_entries_in_strapi_4 cfg env model_name (JDict d # entries) w =
           create_entries_in_strapi_4 cfg env model_name entries
             (w3\<lparr>requests := requests w3 @ [Create model_name (create_body e3)],
                 stdout := stdout w3 @
                   (if status_code r = 200 \<or> status_code r = 201
                    then [Successfully_migrated e3]
                    else [Failed_to_create e3, Response_text (content r)])\<rparr>)"
  using create_entry_answered [OF assms]
  by (simp add: bind_def)

theorem create_stage_records_and_continues_witness:
  "map_of [(''id'', JInt 5), (''title'', JStr ''A'')] ''id'' = Some (JInt 5) \<and>
   handle_media_fields (example_config None) (example_env 200 500)
     (strip_metadata (JInt 5) [(''id'', JInt 5), (''title'', JStr ''A'')]) start_world =
     (Inr [(''title'', JStr ''A''), (''old_id'', JInt 5)], start_world) \<and>
   map_relationships (example_config None) (example_env 200 500)
     [(''title'', JStr ''A''), (''old_id'', JInt 5)] start_world =
     (Inr [(''title'', JStr ''A''), (''old_id'', JInt 5)], start_world) \<and>
   handle_components (example_config None) (example_env 200 500)
     [(''title'', JStr ''A''), (''old_id'', JInt 5)] start_world =
     (Inr [(''title'', JStr ''A''), (''old_id'', JInt 5)], start_world) \<and>
   server (example_env 200 500) (requests start_world)
     (Create ''articles'' (create_body [(''title'', JStr ''A''), (''old_id'', JInt 5)])) =
     Some \<lparr>status_code = 500, content = ''body'', json_body = None\<rparr> \<and>
   create_entries_in_strapi_4 (example_config None) (example_env 200 500) ''articles''
     (JDict [(''id'', JInt 5), (''title'', JStr ''A'')] #
      [JDict [(''id'', JInt 7), (''title'', JStr ''C'')]]) start_world =
     (Inr (),
      start_world\<lparr>requests :=
          [Create ''articles'' (create_body [(''title'', JStr ''A''), (''old_id'', JInt 5)]),
           Create ''articles'' (create_body [(''title'', JStr ''C''), (''old_id'', JInt 7)])],
        stdout :=
          [Failed_to_create [(''title'', JStr ''A''), (''old_id'', JInt 5)], Response_text ''body'',
           Failed_to_create [(''title'', JStr ''C''), (''old_id'', JInt 7)], Response_text ''body'']\<rparr>)"
proof -
  let ?cfg = "example_config None" and ?env = "example_env 200 500"
  let ?e = "[(''title'', JStr ''A''), (''old_id'', JInt 5)]"
  have h1: "map_of [(''id'', JInt 5), (''title'', JStr ''A'')] ''id'' = Some (JInt 5)"
    by simp
  have h2: "handle_media_fields ?cfg ?env
      (strip_metadata (JInt 5) [(''id'', JInt 5), (''title'', JStr ''A'')]) start_world =
      (Inr ?e, start_world)"
    by (simp add: script_defs)
  have h3: "map_relationships ?cfg ?env ?e start_world = (Inr ?e, start_world)"
    by (simp add: script_defs example_defs)
  have h4: "handle_components ?cfg ?env ?e start_world = (Inr ?e, start_world)"
    by (simp add: script_defs)
  have h5: "server ?env (requests start_world) (Create ''articles'' (create_body ?e)) =
      Some \<lparr>status_code = 500, content = ''body'', json_body = None\<rparr>"
    by (simp add: example_defs)
  have c: "create_entries_in_strapi_4 ?cfg ?env ''articles''
     (JDict [(''id'', JInt 5), (''title'', JStr ''A'')] #
      [JDict [(''id'', JInt 7), (''title'', JStr ''C'')]]) start_world =
     (Inr (),
      start_world\<lparr>requests :=
          [Create ''articles'' (create_body ?e),
           Create ''articles'' (create_body [(''title'', JStr ''C''), (''old_id'', JInt 7)])],
        stdout :=
          [Failed_to_create ?e, Response_text ''body'',
           Failed_to_create [(''title'', JStr ''C''), (''old_id'', JInt 7)], Response_text ''body'']\<rparr>)"
    unfolding create_stage_records_and_continues [OF h1 h2 h3 h4 h5]
    by (simp add: script_defs example_defs)
  from h1 h2 h3 h4 h5 c show ?thesis by (intro conjI)
qed

text \<open>The claim as stated fails on a 2xx status other than 200 and 201: the destination
  answers the creation with 204 and the entry is printed as failed.\<close>

theorem create_204_counterexample:
  "server (example_env 200 204) []
     (Create ''articles'' (create_body [(''title'', JStr ''C''), (''old_id'', JInt 7)])) =
     Some \<lparr>status_code = 204, content = ''body'', json_body = None\<rparr> \<and>
   create_entries_in_strapi_4 (example_config None) (example_env 200 204) ''articles''
     [JDict [(''id'', JInt 7), (''title'', JStr ''C'')]] start_world =
     (Inr (),
      start_world\<lparr>requests :=
          [Create ''articles'' (create_body [(''title'', JStr ''C''), (''old_id'', JInt 7)])],
        stdout :=
          [Failed_to_create [(''title'', JStr ''C''), (''old_id'', JInt 7)], Response_text ''body'']\<rparr>)"
  by (simp add: script_defs example_defs)

subsection \<open>C8: the relationship-field set when the variable is not set\<close>

text \<open>
  Claim C8 says that without the variable the relationship-field set is empty and no
  field, the empty name included, is treated as a relationship field. The script computes
  the set as \<^verbatim>\<open>os.getenv("RELATIONSHIP_FIELDS", "").split(",")\<close>, and splitting the empty
  string gives the list holding the empty string: a field named by the empty string is
  looked up and rewritten.
\<close>

theorem unset_relationship_fields_hold_the_empty_name:
  "relationship_fields_of None = [''''] \<and>
   RELATIONSHIP_FIELDS (example_config None) = [''''] \<and>
   map_relationships (example_config None) (example_env 200 201)
     [('''', JDict [(''id'', JInt 9)])] start_world =
     (Inr [('''', JDict [(''connect'', JList [JDict [(''id'', JInt 42)]])])],
      start_world\<lparr>requests := [Lookup '''' (JInt 9)]\<rparr>)"
  by (simp add: script_defs example_defs)

subsection \<open>Which requests a statement sends\<close>

lemma sends_no_ret [simp]: "sends_no p (ret x)"
  by (simp add: sends_no_def ret_def)

lemma sends_no_raise [simp]: "sends_no p (raise e)"
  by (simp add: sends_no_def raise_def)

lemma sends_no_lift [simp]: "sends_no p (lift r)"
  by (simp add: sends_no_def lift_def)

lemma sends_no_emit [simp]: "sends_no p (emit ev)"
  by (simp add: sends_no_def emit_def)

lemma sends_no_files [simp]:
  "sends_no p (write_file env name bytes)" "sends_no p (read_file name)"
  "sends_no p (remove_file name)"
  by (simp_all add: sends_no_def write_file_def read_file_def remove_file_def split: option.splits)

lemma sends_no_send: "\<not> p req \<Longrightarrow> sends_no p (send env req)"
  by (simp add: sends_no_def send_def split: option.splits)

lemma sends_no_bind:
  assumes "sends_no p m" and "\<And>x. sends_no p (f x)"
  shows "sends_no p (bind m f)"
  unfolding sends_no_def
proof
  fix w
  obtain r w1 where m: "m w = (r, w1)" by (cases "m w")
  from assms(1) m have 1: "filter p (requests w1) = filter p (requests w)"
    by (auto simp add: sends_no_def dest: spec [of _ w])
  show "filter p (requests (snd (bind m f w))) = filter p (requests w)"
  proof (cases r)
    case (Inl e)
    with m 1 show ?thesis by (simp add: bind_def)
  next
    case (Inr x)
    from assms(2) [of x] have "filter p (requests (snd (f x w1))) = filter p (requests w1)"
      by (simp add: sends_no_def)
    with m 1 Inr show ?thesis by (simp add: bind_def)
  qed
qed

lemma sends_no_map_io:
  assumes "\<And>x. sends_no p (f x)"
  shows "sends_no p (map_io f xs)"
  by (induction xs) (simp_all add: sends_no_bind assms)

lemma sends_no_for_items:
  assumes "\<And>k v. sends_no p (body k v)"
  shows "sends_no p (for_items body items entry)"
  by (induction items arbitrary: entry) (simp_all add: sends_no_bind assms)

lemma sends_noD:
  "sends_no p m \<Longrightarrow> m w = (r, w') \<Longrightarrow> filter p (requests w') = filter p (requests w)"
  by (auto simp add: sends_no_def dest: spec [of _ w])

text \<open>The passes send downloads, uploads and lookups only.\<close>

lemma sends_no_media_transfer:
  assumes "\<And>u. \<not> p (Download u)" and "\<And>n b. \<not> p (Upload n b)"
  shows "sends_no p (media_transfer cfg env u)"
  by (auto simp add: media_transfer_def join_url_def download_media_def upload_media_to_strapi_4_def
      response_json_def raise_for_status_def assms
      intro!: sends_no_bind sends_no_send split: json.splits option.splits)

lemma sends_no_media_field:
  assumes "\<And>u. \<not> p (Download u)" and "\<And>n b. \<not> p (Upload n b)"
  shows "sends_no p (media_field cfg env v)"
  by (auto simp add: media_field_def
      intro!: sends_no_bind sends_no_map_io sends_no_media_transfer assms split: json.splits)

lemma sends_no_handle_media_fields:
  assumes "\<And>u. \<not> p (Download u)" and "\<And>n b. \<not> p (Upload n b)"
  shows "sends_no p (handle_media_fields cfg env entry)"
  unfolding handle_media_fields_def
  by (intro sends_no_for_items sends_no_media_field assms)

lemma sends_no_fetch_related_id:
  assumes "\<And>m i. \<not> p (Lookup m i)"
  shows "sends_no p (fetch_related_id_in_strapi_4 env model_name old_id)"
  by (auto simp add: fetch_related_id_in_strapi_4_def response_json_def raise_for_status_def assms
      intro!: sends_no_bind sends_no_send split: option.splits)

lemma sends_no_relationship_field:
  assumes "\<And>m i. \<not> p (Lookup m i)"
  shows "sends_no p (relationship_field cfg env field v)"
  by (auto simp add: relationship_field_def
      intro!: sends_no_bind sends_no_map_io sends_no_fetch_related_id assms split: json.splits)

lemma sends_no_map_relationships:
  assumes "\<And>m i. \<not> p (Lookup m i)"
  shows "sends_no p (map_relationships cfg env entry)"
  unfolding map_relationships_def
  by (intro sends_no_for_items sends_no_relationship_field assms)

lemma sends_no_component_passes:
  assumes "\<And>u. \<not> p (Download u)" and "\<And>n b. \<not> p (Upload n b)" and "\<And>m i. \<not> p (Lookup m i)"
  shows "sends_no p (component_passes cfg env c)"
  by (auto simp add: component_passes_def
      intro!: sends_no_bind sends_no_handle_media_fields sends_no_map_relationships assms
      split: json.splits)

lemma sends_no_handle_components:
  assumes "\<And>u. \<not> p (Download u)" and "\<And>n b. \<not> p (Upload n b)" and "\<And>m i. \<not> p (Lookup m i)"
  shows "sends_no p (handle_components cfg env entry)"
  unfolding handle_components_def
  by (intro sends_no_for_items)
    (auto simp add: component_field_def
      intro!: sends_no_bind sends_no_map_io sends_no_component_passes assms split: json.splits)

subsection \<open>C4: the submitted payload\<close>

text \<open>A pass assigns nothing to a field whose value its body leaves alone.\<close>

lemma for_items_keeps:
  assumes skip: "\<And>k. body k v = ret None"
  shows "distinct (map fst items) \<Longrightarrow> for_items body items items w = (Inr items', w') \<Longrightarrow>
     (k, v) \<in> set items \<Longrightarrow> (k, v) \<in> set items'"
proof (induction items arbitrary: items' w)
  case Nil
  then show ?case by simp
next
  case (Cons item items)
  obtain k0 u where item: "item = (k0, u)" by (cases item)
  have d: "distinct (map fst ((k0, u) # items))" and d': "distinct (map fst items)"
    using Cons.prems(1) item by auto
  from Cons.prems(2) obtain new w1 w2 rest' where
    b: "body k0 u w = (Inr new, w1)" and
    r: "for_items body items items w1 = (Inr rest', w')" and
    i: "items' = (k0, case new of None \<Rightarrow> u | Some x \<Rightarrow> x) # rest'"
    unfolding item for_items_Cons [OF d] by (auto simp add: bind_Inr ret_def)
  show ?case
  proof (cases "(k, v) = (k0, u)")
    case True
    with b skip have "new = None" by (simp add: ret_def)
    with True i show ?thesis by simp
  next
    case False
    with Cons.prems(3) item have "(k, v) \<in> set items" by auto
    from Cons.IH [OF d' r this] i show ?thesis by simp
  qed
qed

lemma pass_keeps:
  assumes skip: "\<And>k. body k v = ret None"
      and d: "distinct (map fst entry)"
      and run: "for_items body entry entry w = (Inr entry', w')"
      and v: "map_of entry k = Some v"
  shows "map_of entry' k = Some v \<and> map fst entry' = map fst entry"
proof -
  from v have "(k, v) \<in> set entry" by (rule map_of_SomeD)
  from for_items_keeps [of body v, OF skip d run this] have "(k, v) \<in> set entry'" .
  moreover from for_items_keys [OF d run] have keys: "map fst entry' = map fst entry" .
  with d have "distinct (map fst entry')" by simp
  ultimately show ?thesis using keys by simp
qed

lemma scalar_skipped:
  assumes "\<not> is_dict v" and "\<not> is_list v"
  shows "media_field cfg env v = ret None"
    and "relationship_field cfg env field v = ret None"
    and "component_field cfg env v = ret None"
  using assms
  by (cases v; simp add: media_field_def is_media_def relationship_field_def component_field_def)+

lemma strip_metadata_props:
  assumes "distinct (map fst d)"
  shows "distinct (map fst (strip_metadata old_id d))"
    and "map_of (strip_metadata old_id d) ''old_id'' = Some old_id"
    and "''id'' \<notin> set (map fst (strip_metadata old_id d))"
    and "''created_at'' \<notin> set (map fst (strip_metadata old_id d))"
    and "''updated_at'' \<notin> set (map fst (strip_metadata old_id d))"
proof -
  show "distinct (map fst (strip_metadata old_id d))"
    using assms by (simp add: strip_metadata_def distinct_delete distinct_update)
  show "map_of (strip_metadata old_id d) ''old_id'' = Some old_id"
    by (simp add: strip_metadata_def delete_conv' update_conv')
  show "''id'' \<notin> set (map fst (strip_metadata old_id d))"
    and "''created_at'' \<notin> set (map fst (strip_metadata old_id d))"
    and "''updated_at'' \<notin> set (map fst (strip_metadata old_id d))"
    by (simp_all add: strip_metadata_def delete_keys)
qed

text \<open>
  Claim C4. Take a fetched entry with distinct keys whose \<^verbatim>\<open>id\<close> is an identifier: a
  scalar, neither a mapping nor a list. Then the create stage, working on this entry,
  either raises in one of the three passes with no creation request sent, or sends exactly
  one creation request, whose body is \<^verbatim>\<open>{"data": payload}\<close> for a payload that maps
  \<^verbatim>\<open>old_id\<close> to the original source identifier and has none of the keys \<^verbatim>\<open>id\<close>,
  \<^verbatim>\<open>created_at\<close> and \<^verbatim>\<open>updated_at\<close>.
\<close>

theorem submitted_payload_keeps_old_id:
  assumes "distinct (map fst d)"
      and "map_of d ''id'' = Some old_id"
      and "\<not> is_dict old_id" and "\<not> is_list old_id"
  shows "(\<exists>e. fst (create_entry cfg env model_name (JDict d) w) = Inl e) \<and>
         filter is_create (requests (snd (create_entry cfg env model_name (JDict d) w))) =
           filter is_create (requests w) \<or>
         (\<exists>payload.
            filter is_create (requests (snd (create_entry cfg env model_name (JDict d) w))) =
              filter is_create (requests w) @ [Create model_name (JDict [(''data'', JDict payload)])] \<and>
            map_of payload ''old_id'' = Some old_id \<and>
            ''id'' \<notin> set (map fst payload) \<and>
            ''created_at'' \<notin> set (map fst payload) \<and>
            ''updated_at'' \<notin> set (map fst payload))"
proof -
  let ?p = is_create
  let ?e0 = "strip_metadata old_id d"
  note s = strip_metadata_props [OF assms(1), of old_id]
  have n1: "sends_no ?p (handle_media_fields cfg env e)" for e
    by (rule sends_no_handle_media_fields) simp_all
  have n2: "sends_no ?p (map_relationships cfg env e)" for e
    by (rule sends_no_map_relationships) simp
  have n3: "sends_no ?p (handle_components cfg env e)" for e
    by (rule sends_no_handle_components) simp_all
  obtain r1 w1 where p1: "handle_media_fields cfg env ?e0 w = (r1, w1)"
    by (cases "handle_media_fields cfg env ?e0 w")
  note f1 = sends_noD [OF n1 p1]
  show ?thesis
  proof (cases r1)
    case (Inl e)
    with p1 f1 assms(2) show ?thesis
      by (simp add: create_entry_def bind_def lift_def)
  next
    case r1: (Inr e1)
    from pass_keeps [OF scalar_skipped(1) [OF assms(3,4)] s(1) p1 [unfolded r1 handle_media_fields_def] s(2)]
    have k1: "map_of e1 ''old_id'' = Some old_id" "map fst e1 = map fst ?e0" by simp_all
    obtain r2 w2 where p2: "map_relationships cfg env e1 w1 = (r2, w2)"
      by (cases "map_relationships cfg env e1 w1")
    note f2 = sends_noD [OF n2 p2]
    show ?thesis
    proof (cases r2)
      case (Inl e)
      with p1 r1 p2 f1 f2 assms(2) show ?thesis
        by (simp add: create_entry_def bind_def lift_def)
    next
      case r2: (Inr e2)
      have d1: "distinct (map fst e1)" using k1 s(1) by simp
      from pass_keeps [OF scalar_skipped(2) [OF assms(3,4)] d1 p2 [unfolded r2 map_relationships_def] k1(1)]
      have k2: "map_of e2 ''old_id'' = Some old_id" "map fst e2 = map fst ?e0" using k1 by simp_all
      obtain r3 w3 where p3: "handle_components cfg env e2 w2 = (r3, w3)"
        by (cases "handle_components cfg env e2 w2")
      note f3 = sends_noD [OF n3 p3]
      show ?thesis
      proof (cases r3)
        case (Inl e)
        with p1 r1 p2 r2 p3 f1 f2 f3 assms(2) show ?thesis
          by (simp add: create_entry_def bind_def lift_def)
      next
        case r3: (Inr e3)
        have d2: "distinct (map fst e2)" using k2 s(1) by simp
        from pass_keeps [OF scalar_skipped(3) [OF assms(3,4)] d2 p3 [unfolded r3 handle_components_def] k2(1)]
        have k3: "map_of e3 ''old_id'' = Some old_id" "map fst e3 = map fst ?e0" using k2 by simp_all
        have "filter ?p (requests (snd (create_entry cfg env model_name (JDict d) w))) =
            filter ?p (requests w) @ [Create model_name (JDict [(''data'', JDict e3)])]"
          using p1 r1 p2 r2 p3 r3 f1 f2 f3 assms(2)
          by (simp add: create_entry_def create_body_def bind_def lift_def send_def emit_def
              split: option.splits)
        with k3 s(3,4,5) show ?thesis
          by (intro disjI2 exI [of _ e3]) simp
      qed
    qed
  qed
qed

theorem submitted_payload_keeps_old_id_witness:
  "distinct (map fst [(''id'', JInt 5), (''title'', JStr ''A''), (''created_at'', JStr ''2020''),
      (''updated_at'', JStr ''2021'')]) \<and>
   map_of [(''id'', JInt 5), (''title'', JStr ''A''), (''created_at'', JStr ''2020''),
      (''updated_at'', JStr ''2021'')] ''id'' = Some (JInt 5) \<and>
   \<not> is_dict (JInt 5) \<and> \<not> is_list (JInt 5) \<and>
   create_entry (example_config None) (example_env 200 201) ''articles''
     (JDict [(''id'', JInt 5), (''title'', JStr ''A''), (''created_at'', JStr ''2020''),
        (''updated_at'', JStr ''2021'')]) start_world =
     (Inr (),
      start_world\<lparr>requests :=
          [Create ''articles'' (JDict [(''data'', JDict [(''title'', JStr ''A''), (''old_id'', JInt 5)])])],
        stdout := [Successfully_migrated [(''title'', JStr ''A''), (''old_id'', JInt 5)]]\<rparr>) \<and>
   (\<exists>payload.
      filter is_create (requests (snd (create_entry (example_config None) (example_env 200 201)
        ''articles'' (JDict [(''id'', JInt 5), (''title'', JStr ''A''), (''created_at'', JStr ''2020''),
        (''updated_at'', JStr ''2021'')]) start_world))) =
        filter is_create (requests start_world) @ [Create ''articles'' (JDict [(''data'', JDict payload)])] \<and>
      map_of payload ''old_id'' = Some (JInt 5) \<and>
      ''id'' \<notin> set (map fst payload) \<and>
      ''created_at'' \<notin> set (map fst payload) \<and>
      ''updated_at'' \<notin> set (map fst payload))"
proof -
  let ?d = "[(''id'', JInt 5), (''title'', JStr ''A''), (''created_at'', JStr ''2020''),
      (''updated_at'', JStr ''2021'')]"
  have h1: "distinct (map fst ?d)" by simp
  have h2: "map_of ?d ''id'' = Some (JInt 5)" by simp
  have h3: "\<not> is_dict (JInt 5)" and h4: "\<not> is_list (JInt 5)" by simp_all
  have r: "create_entry (example_config None) (example_env 200 201) ''articles'' (JDict ?d) start_world =
     (Inr (),
      start_world\<lparr>requests :=
          [Create ''articles'' (JDict [(''data'', JDict [(''title'', JStr ''A''), (''old_id'', JInt 5)])])],
        stdout := [Successfully_migrated [(''title'', JStr ''A''), (''old_id'', JInt 5)]]\<rparr>)"
    by (simp add: script_defs example_defs)
  have ok: "\<not> (\<exists>e. fst (create_entry (example_config None) (example_env 200 201) ''articles''
      (JDict ?d) start_world) = Inl e)"
    unfolding r by simp
  from submitted_payload_keeps_old_id [OF h1 h2 h3 h4, of "example_config None" "example_env 200 201"
      "''articles''" start_world] ok
  have c: "\<exists>payload.
      filter is_create (requests (snd (create_entry (example_config None) (example_env 200 201)
        ''articles'' (JDict ?d) start_world))) =
        filter is_create (requests start_world) @ [Create ''articles'' (JDict [(''data'', JDict payload)])] \<and>
      map_of payload ''old_id'' = Some (JInt 5) \<and>
      ''id'' \<notin> set (map fst payload) \<and>
      ''created_at'' \<notin> set (map fst payload) \<and>
      ''updated_at'' \<notin> set (map fst payload)"
    by (elim disjE conjE) (erule notE, assumption+)
  from h1 h2 h3 h4 r c show ?thesis by (intro conjI)
qed

subsection \<open>C3: the page requests of the fetch stage\<close>

lemma pages_cover:
  assumes "0 < (p::nat)"
  shows "n \<le> ((n + p - 1) div p) * p"
proof (rule ccontr)
  assume "\<not> n \<le> ((n + p - 1) div p) * p"
  then have "((n + p - 1) div p) * p + p \<le> n + p - 1" using assms by simp
  then have "Suc ((n + p - 1) div p) * p \<le> n + p - 1" by simp
  then have "Suc ((n + p - 1) div p) \<le> (n + p - 1) div p"
    using assms by (simp only: less_eq_div_iff_mult_less_eq)
  then show False by simp
qed

lemma page_within:
  assumes "0 < (p::nat)" and "k < (n + p - 1) div p"
  shows "k * p < n"
proof -
  from assms(2) have "Suc k \<le> (n + p - 1) div p" by simp
  then have "Suc k * p \<le> n + p - 1"
    using assms(1) by (simp only: less_eq_div_iff_mult_less_eq)
  then show ?thesis using assms(1) by simp
qed

lemma fetch_page_served:
  assumes "BATCH_SIZE cfg = int p"
      and "server env (requests w) (Page model_name token (int p) (int (k * p))) =
             Some (page_response src p (k * p))"
  shows "fetch_page cfg env model_name token (int k + 1) w =
     (Inr (JList (take p (drop (k * p) src))),
      w\<lparr>requests := requests w @ [Page model_name token (int p) (int (k * p))],
        stdout := stdout w @ [Fetching_page (int k + 1)]\<rparr>)"
  using assms
  by (simp add: fetch_page_def bind_def send_def emit_def raise_for_status_def response_json_def
      ret_def page_response_def)

lemma fetch_loop_pages:
  assumes size: "BATCH_SIZE cfg = int p" "0 < p"
      and served: "\<And>h k. server env h (Page model_name token (int p) (int (k * p))) =
             Some (page_response src p (k * p))"
  shows "k \<le> (length src + p - 1) div p \<Longrightarrow>
     fetch_loop cfg env model_name token (take (k * p) src) (int k + 1) w =
       Some (Inr src,
         w\<lparr>requests := requests w @
              map (\<lambda>j. Page model_name token (int p) (int (j * p))) [k..<Suc ((length src + p - 1) div p)],
           stdout := stdout w @
              map (\<lambda>j. Fetching_page (int j + 1)) [k..<Suc ((length src + p - 1) div p)]\<rparr>)"
proof (induction "(length src + p - 1) div p - k" arbitrary: k w)
  case 0
  then have k: "k = (length src + p - 1) div p" by simp
  have cover: "length src \<le> k * p" unfolding k by (rule pages_cover [OF size(2)])
  then have "take p (drop (k * p) src) = []" and "take (k * p) src = src" by simp_all
  then show ?case
    by (subst fetch_loop.simps) (simp add: fetch_page_served [OF size(1) served] k)
next
  case (Suc m)
  then have less: "k < (length src + p - 1) div p" by simp
  from page_within [OF size(2) less] have "k * p < length src" .
  then have ne: "take p (drop (k * p) src) \<noteq> []" using size(2) by simp
  have "take (k * p + p) src = take (k * p) src @ take p (drop (k * p) src)"
    by (rule take_add)
  moreover have "Suc k * p = k * p + p" by simp
  ultimately have more: "take (k * p) src @ take p (drop (k * p) src) = take (Suc k * p) src"
    by (simp only:)
  from Suc.hyps(2) have m: "m = (length src + p - 1) div p - Suc k" by simp
  from less have le: "Suc k \<le> (length src + p - 1) div p" by simp
  have up: "[k..<Suc ((length src + p - 1) div p)] = k # [Suc k..<Suc ((length src + p - 1) div p)]"
    using less by (simp add: upt_conv_Cons)
  have next_page: "int k + 1 + 1 = int (Suc k) + 1" by simp
  show ?case
    by (subst fetch_loop.simps)
      (simp only: fetch_page_served [OF size(1) served] prod.case sum.case truthy.simps ne
        not_not if_False py_iter.simps more next_page Suc.hyps(1) [OF m le] up,
       simp)
qed

lemma fetch_entries_pages:
  assumes "BATCH_SIZE cfg = int p" "0 < p"
      and "\<And>h k. server env h (Page model_name token (int p) (int (k * p))) =
             Some (page_response src p (k * p))"
  shows "fetch_entries_from_strapi_3 cfg env model_name token w =
       Some (Inr src,
         w\<lparr>requests := requests w @
              map (\<lambda>j. Page model_name token (int p) (int (j * p))) [0..<Suc ((length src + p - 1) div p)],
           stdout := stdout w @
              map (\<lambda>j. Fetching_page (int j + 1)) [0..<Suc ((length src + p - 1) div p)]\<rparr>)"
  using fetch_loop_pages [OF assms, of 0 w]
  by (simp add: fetch_entries_from_strapi_3_def)

text \<open>
  Claim C3, as amended. Let the page size be \<open>P > 0\<close> and let the source hold the \<open>N\<close>
  entries \<open>src\<close> and answer every page request with the entries from its start offset, at
  most \<open>P\<close> of them. Then the fetch stage returns: it yields exactly the entries of the
  source, and it has sent exactly \<open>ceil(N/P) + 1\<close> page requests (not \<open>ceil((N+1)/P)\<close>),
  for the offsets \<open>0, P, 2P, ...\<close> in this order. Every request but the last is answered
  with a page that is not empty and the last with the empty page: the loop ends exactly at
  the first page request that returns zero entries.
\<close>

theorem fetch_stage_page_requests:
  assumes "BATCH_SIZE cfg = int p" and "0 < p"
      and "\<And>h k. server env h (Page model_name token (int p) (int (k * p))) =
             Some (page_response src p (k * p))"
  shows "\<exists>w'. fetch_entries_from_strapi_3 cfg env model_name token w = Some (Inr src, w') \<and>
           requests w' = requests w @
             map (\<lambda>k. Page model_name token (int p) (int (k * p)))
               [0..<Suc ((length src + p - 1) div p)] \<and>
           page_requests w' = page_requests w + ((length src + p - 1) div p + 1) \<and>
           (\<forall>k<(length src + p - 1) div p. take p (drop (k * p) src) \<noteq> []) \<and>
           take p (drop (((length src + p - 1) div p) * p) src) = []"
proof -
  let ?n = "(length src + p - 1) div p"
  let ?w = "w\<lparr>requests := requests w @
              map (\<lambda>j. Page model_name token (int p) (int (j * p))) [0..<Suc ?n],
           stdout := stdout w @ map (\<lambda>j. Fetching_page (int j + 1)) [0..<Suc ?n]\<rparr>"
  have run: "fetch_entries_from_strapi_3 cfg env model_name token w = Some (Inr src, ?w)"
    by (rule fetch_entries_pages [OF assms])
  have "filter is_page (map (\<lambda>j. Page model_name token (int p) (int (j * p))) js) =
      map (\<lambda>j. Page model_name token (int p) (int (j * p))) js" for js
    by (induction js) simp_all
  then have count: "page_requests ?w = page_requests w + (?n + 1)"
    by (simp add: page_requests_def)
  have full: "take p (drop (k * p) src) \<noteq> []" if "k < ?n" for k
    using page_within [OF assms(2) that] assms(2) by simp
  have last: "take p (drop (?n * p) src) = []"
    using pages_cover [OF assms(2), of "length src"] by simp
  from run count full last show ?thesis
    by (intro exI [of _ ?w] conjI allI impI) simp_all
qed

lemma example_pages:
  "server (example_env a b) h (Page model_name token (int 10) (int (k * 10))) =
     Some (page_response example_source 10 (k * 10))"
  by (simp add: example_env_def example_server_def nat_mult_distrib)

theorem fetch_stage_page_requests_witness:
  "BATCH_SIZE (example_config None) = int 10 \<and> 0 < (10::nat) \<and>
   (\<forall>h k. server (example_env 200 201) h (Page ''articles'' (JStr ''jwt'') (int 10) (int (k * 10))) =
      Some (page_response example_source 10 (k * 10))) \<and>
   (\<exists>w'. fetch_entries_from_strapi_3 (example_config None) (example_env 200 201) ''articles''
            (JStr ''jwt'') start_world = Some (Inr example_source, w') \<and>
          page_requests w' = 2)"
proof -
  have h1: "BATCH_SIZE (example_config None) = int 10"
    by (simp add: example_config_def)
  have h2: "0 < (10::nat)" by simp
  have h3: "server (example_env 200 201) h (Page ''articles'' (JStr ''jwt'') (int 10) (int (k * 10))) =
      Some (page_response example_source 10 (k * 10))" for h k
    by (rule example_pages)
  from fetch_stage_page_requests [OF h1 h2 h3, of start_world]
  obtain w' where
    "fetch_entries_from_strapi_3 (example_config None) (example_env 200 201) ''articles''
       (JStr ''jwt'') start_world = Some (Inr example_source, w')"
    "page_requests w' = page_requests start_world + ((length example_source + 10 - 1) div 10 + 1)"
    by (elim exE conjE) (rule that, assumption+)
  moreover have "page_requests start_world + ((length example_source + 10 - 1) div 10 + 1) = 2"
    by (simp add: page_requests_def start_world_def example_source_def)
  ultimately have c: "\<exists>w'. fetch_entries_from_strapi_3 (example_config None) (example_env 200 201)
       ''articles'' (JStr ''jwt'') start_world = Some (Inr example_source, w') \<and>
       page_requests w' = 2"
    by (intro exI [of _ w'] conjI) simp_all
  from h1 h2 h3 c show ?thesis by (intro conjI allI)
qed

text \<open>The claim as stated fails: with three entries and the page size 10 the fetch stage
  sends two page requests, and \<open>ceil((3+1)/10)\<close> is one.\<close>

theorem three_entries_two_pages_counterexample:
  "length example_source = 3 \<and> BATCH_SIZE (example_config None) = 10 \<and>
   fetch_entries_from_strapi_3 (example_config None) (example_env 200 201) ''articles''
     (JStr ''jwt'') start_world =
     Some (Inr example_source,
       start_world\<lparr>requests :=
           [Page ''articles'' (JStr ''jwt'') 10 0, Page ''articles'' (JStr ''jwt'') 10 10],
         stdout := [Fetching_page 1, Fetching_page 2]\<rparr>) \<and>
   spec_page_requests 3 10 = 1"
proof -
  have h1: "BATCH_SIZE (example_config None) = int 10"
    by (simp add: example_config_def)
  have n: "length example_source = 3"
    by (simp add: example_source_def)
  have "[0..<Suc ((3 + 10 - 1) div 10)] = [0, 1]"
    by (simp add: upt_rec)
  moreover have h2: "0 < (10::nat)" by simp
  moreover have h3: "server (example_env 200 201) h (Page ''articles'' (JStr ''jwt'') (int 10) (int (k * 10))) =
      Some (page_response example_source 10 (k * 10))" for h k
    by (rule example_pages)
  note fetch_entries_pages [OF h1 h2 h3, of start_world]
  ultimately
  have "fetch_entries_from_strapi_3 (example_config None) (example_env 200 201) ''articles''
     (JStr ''jwt'') start_world =
     Some (Inr example_source,
       start_world\<lparr>requests :=
           [Page ''articles'' (JStr ''jwt'') 10 0, Page ''articles'' (JStr ''jwt'') 10 10],
         stdout := [Fetching_page 1, Fetching_page 2]\<rparr>)"
    by (simp add: n start_world_def)
  with n h1 show ?thesis
    by (simp add: spec_page_requests_def)
qed

subsection \<open>C9: three entries, page size ten\<close>

lemma create_entry_dict:
  assumes "map_of d ''id'' = Some old_id"
  shows "create_entry cfg env model_name (JDict d) =
     bind (bind (handle_media_fields cfg env (strip_metadata old_id d)) (\<lambda>e1.
           bind (map_relationships cfg env e1) (handle_components cfg env)))
       (\<lambda>e3. bind (send env (Create model_name (create_body e3))) (\<lambda>r.
          if status_code r \<noteq> 200 \<and> status_code r \<noteq> 201 then
            bind (emit (Failed_to_create e3)) (\<lambda>_. emit (Response_text (content r)))
          else emit (Successfully_migrated e3)))"
  using assms
  by (simp add: create_entry_def bind_assoc) (simp add: bind_def lift_def fun_eq_iff)

lemma create_entry_no_id:
  assumes "getitem_key e ''id'' = Inl x"
  shows "create_entry cfg env model_name e w = (Inl x, w)"
  using assms by (simp add: create_entry_def bind_def lift_def)

text \<open>One entry of the create stage sends at most one creation request, and exactly one
  when it does not raise.\<close>

lemma create_entry_count:
  "create_requests (snd (create_entry cfg env model_name e w)) \<le> create_requests w + 1 \<and>
   (fst (create_entry cfg env model_name e w) = Inr () \<longrightarrow>
      create_requests (snd (create_entry cfg env model_name e w)) = create_requests w + 1)"
proof (cases "getitem_key e ''id''")
  case (Inl x)
  then show ?thesis by (simp add: create_entry_no_id)
next
  case (Inr old_id)
  then obtain d where e: "e = JDict d" and id: "map_of d ''id'' = Some old_id"
    by (cases e) (auto split: option.splits)
  let ?prep = "bind (handle_media_fields cfg env (strip_metadata old_id d)) (\<lambda>e1.
           bind (map_relationships cfg env e1) (handle_components cfg env))"
  have quiet: "sends_no is_create ?prep"
    by (intro sends_no_bind sends_no_handle_media_fields sends_no_map_relationships
        sends_no_handle_components) simp_all
  obtain r1 w1 where p: "?prep w = (r1, w1)" by (cases "?prep w")
  from sends_noD [OF quiet p] have same: "create_requests w1 = create_requests w"
    by (simp add: create_requests_def)
  show ?thesis
  proof (cases r1)
    case (Inl x)
    with p same show ?thesis
      unfolding e create_entry_dict [OF id] by (simp add: bind_def)
  next
    case (Inr e3)
    with p same show ?thesis
      unfolding e create_entry_dict [OF id]
      by (simp add: bind_def send_def emit_def create_requests_def split: option.splits)
  qed
qed

lemma create_entries_count:
  "create_requests (snd (create_entries_in_strapi_4 cfg env model_name entries w)) \<le>
     create_requests w + length entries \<and>
   (fst (create_entries_in_strapi_4 cfg env model_name entries w) = Inr () \<longrightarrow>
      create_requests (snd (create_entries_in_strapi_4 cfg env model_name entries w)) =
        create_requests w + length entries)"
proof (induction entries arbitrary: w)
  case Nil
  then show ?case by (simp add: ret_def)
next
  case (Cons e entries)
  obtain r1 w1 where c: "create_entry cfg env model_name e w = (r1, w1)"
    by (cases "create_entry cfg env model_name e w")
  from create_entry_count [of cfg env model_name e w] c
  have one: "create_requests w1 \<le> create_requests w + 1"
    "r1 = Inr () \<longrightarrow> create_requests w1 = create_requests w + 1"
    by simp_all
  show ?case
  proof (cases r1)
    case (Inl x)
    with c one show ?thesis by (simp add: bind_def)
  next
    case (Inr u)
    with c one Cons.IH [of w1] show ?thesis by (simp add: bind_def)
  qed
qed

text \<open>When the destination answers every creation call, an entry that raises has raised in
  its passes, before its creation request.\<close>

lemma create_entry_raises_before_creation:
  assumes answered: "\<And>h m b. server env h (Create m b) \<noteq> None"
      and raised: "fst (create_entry cfg env model_name e w) = Inl x"
  shows "create_requests (snd (create_entry cfg env model_name e w)) = create_requests w"
proof (cases "getitem_key e ''id''")
  case (Inl y)
  then show ?thesis by (simp add: create_entry_no_id)
next
  case (Inr old_id)
  then obtain d where e: "e = JDict d" and id: "map_of d ''id'' = Some old_id"
    by (cases e) (auto split: option.splits)
  let ?prep = "bind (handle_media_fields cfg env (strip_metadata old_id d)) (\<lambda>e1.
           bind (map_relationships cfg env e1) (handle_components cfg env))"
  have quiet: "sends_no is_create ?prep"
    by (intro sends_no_bind sends_no_handle_media_fields sends_no_map_relationships
        sends_no_handle_components) simp_all
  obtain r1 w1 where p: "?prep w = (r1, w1)" by (cases "?prep w")
  from sends_noD [OF quiet p] have same: "create_requests w1 = create_requests w"
    by (simp add: create_requests_def)
  show ?thesis
  proof (cases r1)
    case (Inl y)
    with p same show ?thesis
      unfolding e create_entry_dict [OF id] by (simp add: bind_def)
  next
    case (Inr e3)
    from answered [of "requests w1" model_name "create_body e3"] obtain r where
      "server env (requests w1) (Create model_name (create_body e3)) = Some r"
      by auto
    with p Inr have "fst (create_entry cfg env model_name e w) = Inr ()"
      unfolding e create_entry_dict [OF id]
      by (simp add: bind_def send_def emit_def)
    with raised show ?thesis by simp
  qed
qed

lemma create_entries_raise_fewer:
  assumes answered: "\<And>h m b. server env h (Create m b) \<noteq> None"
  shows "fst (create_entries_in_strapi_4 cfg env model_name entries w) = Inl x \<Longrightarrow>
     create_requests (snd (create_entries_in_strapi_4 cfg env model_name entries w)) <
       create_requests w + length entries"
proof (induction entries arbitrary: w)
  case Nil
  then show ?case by (simp add: ret_def)
next
  case (Cons e entries)
  obtain r1 w1 where c: "create_entry cfg env model_name e w = (r1, w1)"
    by (cases "create_entry cfg env model_name e w")
  show ?case
  proof (cases r1)
    case (Inl y)
    with c have "fst (create_entry cfg env model_name e w) = Inl y" by simp
    from create_entry_raises_before_creation [OF answered this] c
    have "create_requests w1 = create_requests w" by simp
    with c Inl show ?thesis by (simp add: bind_def)
  next
    case (Inr u)
    from create_entry_count [of cfg env model_name e w] c Inr
    have one: "create_requests w1 = create_requests w + 1" by simp
    from Cons.prems c Inr
    have "fst (create_entries_in_strapi_4 cfg env model_name entries w1) = Inl x"
      by (simp add: bind_def)
    from Cons.IH [OF this] c Inr one show ?thesis by (simp add: bind_def)
  qed
qed

lemma sends_no_create_entry: "sends_no is_page (create_entry cfg env model_name e)"
  unfolding create_entry_def
  by (cases e)
    (auto intro!: sends_no_bind sends_no_send sends_no_handle_media_fields
      sends_no_map_relationships sends_no_handle_components)

lemma sends_no_create_entries:
  "sends_no is_page (create_entries_in_strapi_4 cfg env model_name entries)"
  by (induction entries) (simp_all add: sends_no_bind sends_no_create_entry)

lemma fetch_entries_counts:
  assumes "BATCH_SIZE cfg = int p" and "0 < p"
      and "\<And>h k. server env h (Page model_name token (int p) (int (k * p))) =
             Some (page_response src p (k * p))"
  shows "\<exists>w'. fetch_entries_from_strapi_3 cfg env model_name token w = Some (Inr src, w') \<and>
           filter is_page (requests w') = filter is_page (requests w) @
             map (\<lambda>j. Page model_name token (int p) (int (j * p)))
               [0..<Suc ((length src + p - 1) div p)] \<and>
           create_requests w' = create_requests w"
proof -
  let ?n = "(length src + p - 1) div p"
  let ?w = "w\<lparr>requests := requests w @
              map (\<lambda>j. Page model_name token (int p) (int (j * p))) [0..<Suc ?n],
           stdout := stdout w @ map (\<lambda>j. Fetching_page (int j + 1)) [0..<Suc ?n]\<rparr>"
  have run: "fetch_entries_from_strapi_3 cfg env model_name token w = Some (Inr src, ?w)"
    by (rule fetch_entries_pages [OF assms])
  have "filter is_page (map (\<lambda>j. Page model_name token (int p) (int (j * p))) js) =
      map (\<lambda>j. Page model_name token (int p) (int (j * p))) js"
    and "filter is_create (map (\<lambda>j. Page model_name token (int p) (int (j * p))) js) = []" for js
    by (induction js) simp_all
  then have "filter is_page (requests ?w) = filter is_page (requests w) @
             map (\<lambda>j. Page model_name token (int p) (int (j * p))) [0..<Suc ?n]"
    and "create_requests ?w = create_requests w"
    by (simp_all add: create_requests_def)
  with run show ?thesis by (intro exI [of _ ?w] conjI)
qed

lemma login_answered:
  assumes "server env (requests w) (Login (STRAPI_3_EMAIL cfg) (STRAPI_3_PASSWORD cfg)) = Some r"
      and "\<not> (400 \<le> status_code r \<and> status_code r < 600)"
      and "json_body r = Some (JDict body)"
      and "map_of body ''data'' = Some (JDict session)"
      and "map_of session ''token'' = Some token"
  shows "get_strapi_3_token cfg env w =
     (Inr token, w\<lparr>requests := requests w @ [Login (STRAPI_3_EMAIL cfg) (STRAPI_3_PASSWORD cfg)]\<rparr>)"
  using assms
  by (auto simp add: get_strapi_3_token_def bind_def send_answer raise_for_status_def
      response_json_def ret_def raise_def lift_def)

text \<open>
  Claim C9, as amended. Let the page size be 10, let the login be answered with a token,
  and let the source hold exactly three entries and answer every page request with its
  entries from the start offset. Then a run returns or raises (it does not go on for
  ever), and it has sent exactly two page requests, for the offsets 0 and 10: the first
  page holds the three entries and the second is empty. It sends at most three creation
  requests, and exactly three when it ends without an exception. When the destination
  answers every creation call, a run that ends with an exception has sent fewer than
  three: the exception was raised while an entry was transformed, before that entry's
  creation request and those of the entries after it.
\<close>

theorem three_entries_run:
  assumes "BATCH_SIZE cfg = 10" and "length src = 3"
      and "\<And>h. server env h (Login (STRAPI_3_EMAIL cfg) (STRAPI_3_PASSWORD cfg)) = Some login"
      and "\<not> (400 \<le> status_code login \<and> status_code login < 600)"
      and "json_body login = Some (JDict body)"
      and "map_of body ''data'' = Some (JDict session)"
      and "map_of session ''token'' = Some token"
      and "\<And>h k. server env h (Page (STRAPI_3_MODEL cfg) token (int 10) (int (k * 10))) =
             Some (page_response src 10 (k * 10))"
  shows "\<exists>r w'. main cfg env w = Some (r, w') \<and>
           filter is_page (requests w') = filter is_page (requests w) @
             [Page (STRAPI_3_MODEL cfg) token 10 0, Page (STRAPI_3_MODEL cfg) token 10 10] \<and>
           page_requests w' = page_requests w + 2 \<and>
           take 10 (drop 0 src) = src \<and> length (take 10 (drop 0 src)) = 3 \<and>
           take 10 (drop 10 src) = [] \<and>
           create_requests w' \<le> create_requests w + 3 \<and>
           (r = Inr () \<longrightarrow> create_requests w' = create_requests w + 3) \<and>
           ((\<forall>h m b. server env h (Create m b) \<noteq> None) \<and> r \<noteq> Inr () \<longrightarrow>
              create_requests w' < create_requests w + 3)"
proof -
  let ?w0 = "w\<lparr>stdout := stdout w @ [Authenticating]\<rparr>"
  let ?w1 = "w\<lparr>requests := requests w @ [Login (STRAPI_3_EMAIL cfg) (STRAPI_3_PASSWORD cfg)],
               stdout := stdout w @ [Authenticating, Fetching_entries (STRAPI_3_MODEL cfg)]\<rparr>"
  let ?pages = "[Page (STRAPI_3_MODEL cfg) token 10 0, Page (STRAPI_3_MODEL cfg) token 10 10]"
  have start: "bind (emit Authenticating) (\<lambda>_.
           bind (get_strapi_3_token cfg env) (\<lambda>token.
           bind (emit (Fetching_entries (STRAPI_3_MODEL cfg))) (\<lambda>_. ret token))) w = (Inr token, ?w1)"
    using login_answered [OF assms(3) assms(4-7), of ?w0]
    by (simp add: bind_def emit_def ret_def)
  have c1: "filter is_page (requests ?w1) = filter is_page (requests w)"
    "create_requests ?w1 = create_requests w"
    by (simp_all add: create_requests_def)
  have size: "BATCH_SIZE cfg = int 10" using assms(1) by simp
  have pos: "0 < (10::nat)" by simp
  have up: "[0..<Suc ((length src + 10 - 1) div 10)] = [0, 1]"
    using assms(2) by (simp add: upt_rec)
  from fetch_entries_counts [OF size pos assms(8), of ?w1]
  obtain w2 where
    fetch: "fetch_entries_from_strapi_3 cfg env (STRAPI_3_MODEL cfg) token ?w1 = Some (Inr src, w2)" and
    c2: "filter is_page (requests w2) = filter is_page (requests ?w1) @
             map (\<lambda>j. Page (STRAPI_3_MODEL cfg) token (int 10) (int (j * 10)))
               [0..<Suc ((length src + 10 - 1) div 10)]"
      "create_requests w2 = create_requests ?w1"
    by (elim exE conjE) (rule that, assumption+)
  let ?w3 = "w2\<lparr>stdout := stdout w2 @ [Fetched (length src), Creating_entries]\<rparr>"
  have c2': "filter is_page (requests w2) = filter is_page (requests ?w1) @ ?pages"
    using c2(1) unfolding up by simp
  have c3: "filter is_page (requests ?w3) = filter is_page (requests w) @ ?pages"
    "create_requests ?w3 = create_requests w"
    using c1 c2' c2(2) by (simp_all add: create_requests_def)
  obtain r4 w4 where
    create: "create_entries_in_strapi_4 cfg env (STRAPI_4_MODEL cfg) src ?w3 = (r4, w4)"
    by (cases "create_entries_in_strapi_4 cfg env (STRAPI_4_MODEL cfg) src ?w3")
  from sends_noD [OF sends_no_create_entries create]
  have p4: "filter is_page (requests w4) = filter is_page (requests w) @ ?pages"
    using c3 by simp
  from create_entries_count [of cfg env "STRAPI_4_MODEL cfg" src ?w3] create
  have n4: "create_requests w4 \<le> create_requests w + 3"
    "r4 = Inr () \<longrightarrow> create_requests w4 = create_requests w + 3"
    using c3 assms(2) by simp_all
  have f4: "create_requests w4 < create_requests w + 3"
    if "\<forall>h m b. server env h (Create m b) \<noteq> None" and "r4 = Inl x" for x
  proof -
    from that(1) have a: "server env h (Create m b) \<noteq> None" for h m b by blast
    from create that(2)
    have "fst (create_entries_in_strapi_4 cfg env (STRAPI_4_MODEL cfg) src ?w3) = Inl x" by simp
    from create_entries_raise_fewer [OF a this] create c3 assms(2) show ?thesis by simp
  qed
  have src: "take 10 (drop 0 src) = src" "length (take 10 (drop 0 src)) = 3"
    "take 10 (drop 10 src) = []"
    using assms(2) by simp_all
  show ?thesis
  proof (cases r4)
    case (Inl x)
    with create have run: "main cfg env w = Some (Inl x, w4)"
      unfolding main_def start prod.case sum.case fetch option.case
      by (simp add: bind_def emit_def)
    have pages: "page_requests w4 = page_requests w + 2"
      using p4 by (simp add: page_requests_def)
    from f4 Inl have "(\<forall>h m b. server env h (Create m b) \<noteq> None) \<and> (Inl x :: error + unit) \<noteq> Inr () \<longrightarrow>
        create_requests w4 < create_requests w + 3"
      by blast
    with run p4 pages n4 src Inl show ?thesis
      by (intro exI [of _ "Inl x"] exI [of _ w4] conjI) simp_all
  next
    case (Inr u)
    let ?w5 = "w4\<lparr>stdout := stdout w4 @ [Migration_complete]\<rparr>"
    from Inr create have run: "main cfg env w = Some (Inr (), ?w5)"
      unfolding main_def start prod.case sum.case fetch option.case
      by (simp add: bind_def emit_def)
    have same: "requests ?w5 = requests w4" "create_requests ?w5 = create_requests w4"
      by (simp_all add: create_requests_def)
    have pages: "page_requests ?w5 = page_requests w + 2"
      using p4 by (simp add: page_requests_def)
    from run p4 pages n4 src Inr same show ?thesis
      by (intro exI [of _ "Inr ()"] exI [of _ ?w5] conjI) simp_all
  qed
qed

text \<open>The run in its three steps, for a login and a fetch stage that return.\<close>

lemma main_steps:
  assumes "bind (emit Authenticating) (\<lambda>_.
           bind (get_strapi_3_token cfg env) (\<lambda>token.
           bind (emit (Fetching_entries (STRAPI_3_MODEL cfg))) (\<lambda>_. ret token))) w = (Inr token, w1)"
      and "fetch_entries_from_strapi_3 cfg env (STRAPI_3_MODEL cfg) token w1 = Some (Inr entries, w2)"
      and "bind (emit (Fetched (length entries))) (\<lambda>_.
           bind (emit Creating_entries) (\<lambda>_.
           bind (create_entries_in_strapi_4 cfg env (STRAPI_4_MODEL cfg) entries) (\<lambda>_.
           emit Migration_complete))) w2 = res"
  shows "main cfg env w = Some res"
  unfolding main_def assms(1) prod.case sum.case assms(2) option.case assms(3) ..

text \<open>Two runs against the example servers: one with no relationship field configured,
  which creates the three entries, and one with \<^verbatim>\<open>author\<close> configured, where the second
  entry refers to an author the destination does not know.\<close>

lemma example_run_completes:
  "main (example_config None) (example_env 200 201) start_world =
     Some (Inr (),
       \<lparr>requests =
          [Login ''me'' ''pw'',
           Page ''articles'' (JStr ''jwt'') 10 0, Page ''articles'' (JStr ''jwt'') 10 10,
           Create ''articles'' (JDict [(''data'', JDict [(''title'', JStr ''A''), (''old_id'', JInt 5)])]),
           Create ''articles'' (JDict [(''data'', JDict [(''title'', JStr ''B''),
             (''author'', JDict [(''id'', JInt 7)]), (''old_id'', JInt 6)])]),
           Create ''articles'' (JDict [(''data'', JDict [(''title'', JStr ''C''), (''old_id'', JInt 7)])])],
        files = [],
        stdout =
          [Authenticating, Fetching_entries ''articles'', Fetching_page 1, Fetching_page 2,
           Fetched 3, Creating_entries,
           Successfully_migrated [(''title'', JStr ''A''), (''old_id'', JInt 5)],
           Successfully_migrated [(''title'', JStr ''B''),
             (''author'', JDict [(''id'', JInt 7)]), (''old_id'', JInt 6)],
           Successfully_migrated [(''title'', JStr ''C''), (''old_id'', JInt 7)],
           Migration_complete]\<rparr>)"
proof -
  let ?cfg = "example_config None" and ?env = "example_env 200 201"
  let ?w1 = "\<lparr>requests = [Login ''me'' ''pw''], files = [],
             stdout = [Authenticating, Fetching_entries ''articles'']\<rparr>"
  let ?w2 = "\<lparr>requests = [Login ''me'' ''pw'',
               Page ''articles'' (JStr ''jwt'') 10 0, Page ''articles'' (JStr ''jwt'') 10 10],
             files = [],
             stdout = [Authenticating, Fetching_entries ''articles'', Fetching_page 1, Fetching_page 2]\<rparr>"
  have n: "length example_source = 3" by (simp add: example_source_def)
  have size: "BATCH_SIZE ?cfg = int 10" by (simp add: example_config_def)
  have pos: "0 < (10::nat)" by simp
  have model: "STRAPI_3_MODEL ?cfg = ''articles''" by (simp add: example_config_def)
  have pages: "server ?env h (Page (STRAPI_3_MODEL ?cfg) (JStr ''jwt'') (int 10) (int (k * 10))) =
      Some (page_response example_source 10 (k * 10))" for h k
    by (rule example_pages)
  have start: "bind (emit Authenticating) (\<lambda>_.
           bind (get_strapi_3_token ?cfg ?env) (\<lambda>token.
           bind (emit (Fetching_entries (STRAPI_3_MODEL ?cfg))) (\<lambda>_. ret token))) start_world =
         (Inr (JStr ''jwt''), ?w1)"
    by (simp add: script_defs example_defs)
  have up: "[0..<Suc ((3 + 10 - 1) div 10)] = [0, 1]"
    by (simp add: upt_rec)
  have fetch: "fetch_entries_from_strapi_3 ?cfg ?env (STRAPI_3_MODEL ?cfg) (JStr ''jwt'') ?w1 =
      Some (Inr example_source, ?w2)"
    using fetch_entries_pages [OF size pos pages, of ?w1] up
    by (simp add: n model)
  have rest: "bind (emit (Fetched (length example_source))) (\<lambda>_.
           bind (emit Creating_entries) (\<lambda>_.
           bind (create_entries_in_strapi_4 ?cfg ?env (STRAPI_4_MODEL ?cfg) example_source) (\<lambda>_.
           emit Migration_complete))) ?w2 =
         (Inr (),
          \<lparr>requests =
          [Login ''me'' ''pw'',
           Page ''articles'' (JStr ''jwt'') 10 0, Page ''articles'' (JStr ''jwt'') 10 10,
           Create ''articles'' (JDict [(''data'', JDict [(''title'', JStr ''A''), (''old_id'', JInt 5)])]),
           Create ''articles'' (JDict [(''data'', JDict [(''title'', JStr ''B''),
             (''author'', JDict [(''id'', JInt 7)]), (''old_id'', JInt 6)])]),
           Create ''articles'' (JDict [(''data'', JDict [(''title'', JStr ''C''), (''old_id'', JInt 7)])])],
        files = [],
        stdout =
          [Authenticating, Fetching_entries ''articles'', Fetching_page 1, Fetching_page 2,
           Fetched 3, Creating_entries,
           Successfully_migrated [(''title'', JStr ''A''), (''old_id'', JInt 5)],
           Successfully_migrated [(''title'', JStr ''B''),
             (''author'', JDict [(''id'', JInt 7)]), (''old_id'', JInt 6)],
           Successfully_migrated [(''title'', JStr ''C''), (''old_id'', JInt 7)],
           Migration_complete]\<rparr>)"
    by (simp add: script_defs example_defs)
  show ?thesis
    by (rule main_steps [OF start fetch rest])
qed

lemma example_run_unknown_author:
  "main (example_config (Some ''author'')) (example_env 200 201) start_world =
     Some (Inl (ValueError (JInt 7)),
       \<lparr>requests =
          [Login ''me'' ''pw'',
           Page ''articles'' (JStr ''jwt'') 10 0, Page ''articles'' (JStr ''jwt'') 10 10,
           Create ''articles'' (JDict [(''data'', JDict [(''title'', JStr ''A''), (''old_id'', JInt 5)])]),
           Lookup ''author'' (JInt 7)],
        files = [],
        stdout =
          [Authenticating, Fetching_entries ''articles'', Fetching_page 1, Fetching_page 2,
           Fetched 3, Creating_entries,
           Successfully_migrated [(''title'', JStr ''A''), (''old_id'', JInt 5)]]\<rparr>)"
proof -
  let ?cfg = "example_config (Some ''author'')" and ?env = "example_env 200 201"
  let ?w1 = "\<lparr>requests = [Login ''me'' ''pw''], files = [],
             stdout = [Authenticating, Fetching_entries ''articles'']\<rparr>"
  let ?w2 = "\<lparr>requests = [Login ''me'' ''pw'',
               Page ''articles'' (JStr ''jwt'') 10 0, Page ''articles'' (JStr ''jwt'') 10 10],
             files = [],
             stdout = [Authenticating, Fetching_entries ''articles'', Fetching_page 1, Fetching_page 2]\<rparr>"
  have n: "length example_source = 3" by (simp add: example_source_def)
  have size: "BATCH_SIZE ?cfg = int 10" by (simp add: example_config_def)
  have pos: "0 < (10::nat)" by simp
  have model: "STRAPI_3_MODEL ?cfg = ''articles''" by (simp add: example_config_def)
  have pages: "server ?env h (Page (STRAPI_3_MODEL ?cfg) (JStr ''jwt'') (int 10) (int (k * 10))) =
      Some (page_response example_source 10 (k * 10))" for h k
    by (rule example_pages)
  have start: "bind (emit Authenticating) (\<lambda>_.
           bind (get_strapi_3_token ?cfg ?env) (\<lambda>token.
           bind (emit (Fetching_entries (STRAPI_3_MODEL ?cfg))) (\<lambda>_. ret token))) start_world =
         (Inr (JStr ''jwt''), ?w1)"
    by (simp add: script_defs example_defs)
  have up: "[0..<Suc ((3 + 10 - 1) div 10)] = [0, 1]"
    by (simp add: upt_rec)
  have fetch: "fetch_entries_from_strapi_3 ?cfg ?env (STRAPI_3_MODEL ?cfg) (JStr ''jwt'') ?w1 =
      Some (Inr example_source, ?w2)"
    using fetch_entries_pages [OF size pos pages, of ?w1] up
    by (simp add: n model)
  have rest: "bind (emit (Fetched (length example_source))) (\<lambda>_.
           bind (emit Creating_entries) (\<lambda>_.
           bind (create_entries_in_strapi_4 ?cfg ?env (STRAPI_4_MODEL ?cfg) example_source) (\<lambda>_.
           emit Migration_complete))) ?w2 =
         (Inl (ValueError (JInt 7)),
          \<lparr>requests =
          [Login ''me'' ''pw'',
           Page ''articles'' (JStr ''jwt'') 10 0, Page ''articles'' (JStr ''jwt'') 10 10,
           Create ''articles'' (JDict [(''data'', JDict [(''title'', JStr ''A''), (''old_id'', JInt 5)])]),
           Lookup ''author'' (JInt 7)],
        files = [],
        stdout =
          [Authenticating, Fetching_entries ''articles'', Fetching_page 1, Fetching_page 2,
           Fetched 3, Creating_entries,
           Successfully_migrated [(''title'', JStr ''A''), (''old_id'', JInt 5)]]\<rparr>)"
    by (simp add: script_defs example_defs)
  show ?thesis
    by (rule main_steps [OF start fetch rest])
qed

theorem three_entries_run_witness:
  "BATCH_SIZE (example_config None) = 10 \<and> length example_source = 3 \<and>
   (\<forall>h. server (example_env 200 201) h
      (Login (STRAPI_3_EMAIL (example_config None)) (STRAPI_3_PASSWORD (example_config None))) =
      Some \<lparr>status_code = 200, content = [],
            json_body = Some (JDict [(''data'', JDict [(''token'', JStr ''jwt'')])])\<rparr>) \<and>
   (\<forall>h k. server (example_env 200 201) h
      (Page (STRAPI_3_MODEL (example_config None)) (JStr ''jwt'') (int 10) (int (k * 10))) =
      Some (page_response example_source 10 (k * 10))) \<and>
   (\<forall>h m b. server (example_env 200 201) h (Create m b) \<noteq> None) \<and>
   (\<exists>w'. main (example_config None) (example_env 200 201) start_world = Some (Inr (), w') \<and>
      page_requests w' = 2 \<and> create_requests w' = 3) \<and>
   (\<exists>w'. main (example_config (Some ''author'')) (example_env 200 201) start_world =
        Some (Inl (ValueError (JInt 7)), w') \<and>
      page_requests w' = 2 \<and> create_requests w' < 3)"
proof -
  let ?env = "example_env 200 201"
  let ?login = "\<lparr>status_code = 200, content = [],
            json_body = Some (JDict [(''data'', JDict [(''token'', JStr ''jwt'')])])\<rparr>"
  have h1: "BATCH_SIZE (example_config v) = 10" for v by (simp add: example_config_def)
  have h2: "length example_source = 3" by (simp add: example_source_def)
  have h3: "server ?env h (Login (STRAPI_3_EMAIL (example_config v)) (STRAPI_3_PASSWORD (example_config v))) =
      Some ?login" for h v
    by (simp add: example_defs)
  have h4: "\<not> (400 \<le> status_code ?login \<and> status_code ?login < 600)" by simp
  have h5: "json_body ?login = Some (JDict [(''data'', JDict [(''token'', JStr ''jwt'')])])" by simp
  have h6: "map_of [(''data'', JDict [(''token'', JStr ''jwt'')])] ''data'' =
      Some (JDict [(''token'', JStr ''jwt'')])" by simp
  have h7: "map_of [(''token'', JStr ''jwt'')] ''token'' = Some (JStr ''jwt'')" by simp
  have h8: "server ?env h (Page (STRAPI_3_MODEL (example_config v)) (JStr ''jwt'') (int 10) (int (k * 10))) =
      Some (page_response example_source 10 (k * 10))" for h k v
    by (rule example_pages)
  have h9: "server ?env h (Create m b) \<noteq> None" for h m b
    by (simp add: example_defs)
  have zero: "page_requests start_world = 0" "create_requests start_world = 0"
    by (simp_all add: page_requests_def create_requests_def start_world_def)
  from three_entries_run [OF h1 h2 h3 h4 h5 h6 h7 h8, of None start_world]
  obtain r w' where
    "main (example_config None) ?env start_world = Some (r, w')"
    "page_requests w' = page_requests start_world + 2"
    "r = Inr () \<longrightarrow> create_requests w' = create_requests start_world + 3"
    by (elim exE conjE) (rule that, assumption+)
  then have c: "\<exists>w'. main (example_config None) ?env start_world = Some (Inr (), w') \<and>
      page_requests w' = 2 \<and> create_requests w' = 3"
    unfolding example_run_completes zero by auto
  from three_entries_run [OF h1 h2 h3 h4 h5 h6 h7 h8, of "Some ''author''" start_world]
  obtain r w' where
    "main (example_config (Some ''author'')) ?env start_world = Some (r, w')"
    "page_requests w' = page_requests start_world + 2"
    "(\<forall>h m b. server ?env h (Create m b) \<noteq> None) \<and> r \<noteq> Inr () \<longrightarrow>
       create_requests w' < create_requests start_world + 3"
    by (elim exE conjE) (rule that, assumption+)
  then have f: "\<exists>w'. main (example_config (Some ''author'')) ?env start_world =
        Some (Inl (ValueError (JInt 7)), w') \<and>
      page_requests w' = 2 \<and> create_requests w' < 3"
    unfolding example_run_unknown_author zero using h9 by auto
  from h1 [of None] h2 h3 [of _ None] h8 [of _ None] h9 c f show ?thesis
    by (intro conjI allI)
qed

text \<open>The claim as stated fails: the source holds three entries, the page size is 10, and
  the second entry refers to an author the destination does not know. The run sends the
  two page requests, creates the first entry and ends with the lookup's exception: one
  creation request, not three.\<close>

theorem three_entries_one_creation_counterexample:
  "length example_source = 3 \<and> BATCH_SIZE (example_config (Some ''author'')) = 10 \<and>
   main (example_config (Some ''author'')) (example_env 200 201) start_world =
     Some (Inl (ValueError (JInt 7)),
       \<lparr>requests =
          [Login ''me'' ''pw'',
           Page ''articles'' (JStr ''jwt'') 10 0, Page ''articles'' (JStr ''jwt'') 10 10,
           Create ''articles'' (JDict [(''data'', JDict [(''title'', JStr ''A''), (''old_id'', JInt 5)])]),
           Lookup ''author'' (JInt 7)],
        files = [],
        stdout =
          [Authenticating, Fetching_entries ''articles'', Fetching_page 1, Fetching_page 2,
           Fetched 3, Creating_entries,
           Successfully_migrated [(''title'', JStr ''A''), (''old_id'', JInt 5)]]\<rparr>) \<and>
   create_requests
     \<lparr>requests =
          [Login ''me'' ''pw'',
           Page ''articles'' (JStr ''jwt'') 10 0, Page ''articles'' (JStr ''jwt'') 10 10,
           Create ''articles'' (JDict [(''data'', JDict [(''title'', JStr ''A''), (''old_id'', JInt 5)])]),
           Lookup ''author'' (JInt 7)],
        files = [],
        stdout =
          [Authenticating, Fetching_entries ''articles'', Fetching_page 1, Fetching_page 2,
           Fetched 3, Creating_entries,
           Successfully_migrated [(''title'', JStr ''A''), (''old_id'', JInt 5)]]\<rparr> = 1"
proof -
  have n: "length example_source = 3" by (simp add: example_source_def)
  have b: "BATCH_SIZE (example_config (Some ''author'')) = 10" by (simp add: example_config_def)
  have count: "create_requests
     \<lparr>requests =
          [Login ''me'' ''pw'',
           Page ''articles'' (JStr ''jwt'') 10 0, Page ''articles'' (JStr ''jwt'') 10 10,
           Create ''articles'' (JDict [(''data'', JDict [(''title'', JStr ''A''), (''old_id'', JInt 5)])]),
           Lookup ''author'' (JInt 7)],
        files = [],
        stdout =
          [Authenticating, Fetching_entries ''articles'', Fetching_page 1, Fetching_page 2,
           Fetched 3, Creating_entries,
           Successfully_migrated [(''title'', JStr ''A''), (''old_id'', JInt 5)]]\<rparr> = 1"
    by (simp add: create_requests_def)
  from n b example_run_unknown_author count show ?thesis by (intro conjI)
qed

end
